theory Spec2Isabelle
  imports Main "HOL-Library.Char_ord" "HOL-Library.List_Lexorder"
begin

section \<open>Python values shared by both source files\<close>

text \<open>
  Exceptions of the Python runtime and of the libraries the code calls are values of
  \<open>py_error\<close>; a function that can raise returns \<open>py_error + 'a\<close> with \<open>Inl\<close> for the
  exception.
\<close>

datatype py_error =
    ZeroDivisionError
  | IndexError
  | ValueError
  | FileNotFoundError
  | ValidationError
  | UnknownHashError
  | CollaboratorError

subsection \<open>Decimal strings\<close>

text \<open>\<open>str(n)\<close> for an integer \<open>n \<ge> 0\<close>: its decimal digits, most significant first.\<close>

definition digit_char :: "nat \<Rightarrow> char" where
  "digit_char d = ''0123456789'' ! d"

fun str_nat :: "nat \<Rightarrow> string" where
  "str_nat n = (if n < 10 then [digit_char n] else str_nat (n div 10) @ [digit_char (n mod 10)])"

declare str_nat.simps [simp del]

text \<open>
  \<open>s.zfill(width)\<close> for a string without a sign, and the two spellings of the frame file
  names, \<open>f"{count:08d}"\<close> and \<open>str(i).zfill(8)\<close>, which agree on integers \<open>\<ge> 0\<close>.
\<close>

definition zfill :: "nat \<Rightarrow> string \<Rightarrow> string" where
  "zfill width s = replicate (width - length s) (CHR ''0'') @ s"

definition fmt08d :: "nat \<Rightarrow> string" where
  "fmt08d n = zfill 8 (str_nat n)"

definition png_name :: "nat \<Rightarrow> string" where
  "png_name n = fmt08d n @ ''.png''"

text \<open>
  \<open>int(s)\<close> on a string of ASCII characters: white space around the number is dropped, one
  sign may come first, and the digits may be separated by single underscores.
  \<open>None\<close> is \<open>ValueError\<close>.
\<close>

definition digit_val :: "char \<Rightarrow> nat option" where
  "digit_val c = (if c \<in> set ''0123456789'' then Some (of_char c - 48) else None)"

definition is_space :: "char \<Rightarrow> bool" where
  "is_space c = (c \<in> set [CHR '' '', CHR 0x09, CHR 0x0A, CHR 0x0B, CHR 0x0C, CHR 0x0D,
                            CHR 0x1C, CHR 0x1D, CHR 0x1E, CHR 0x1F])"

definition strip :: "string \<Rightarrow> string" where
  "strip s = rev (dropWhile is_space (rev (dropWhile is_space s)))"

fun more_digits :: "nat \<Rightarrow> string \<Rightarrow> nat option" where
  "more_digits acc [] = Some acc"
| "more_digits acc [c] =
     (case digit_val c of None \<Rightarrow> None | Some v \<Rightarrow> Some (10 * acc + v))"
| "more_digits acc (c # d # cs) =
     (if c = CHR ''_''
      then (case digit_val d of None \<Rightarrow> None | Some v \<Rightarrow> more_digits (10 * acc + v) cs)
      else (case digit_val c of None \<Rightarrow> None | Some v \<Rightarrow> more_digits (10 * acc + v) (d # cs)))"

definition nat_literal :: "string \<Rightarrow> nat option" where
  "nat_literal s =
     (case s of
        [] \<Rightarrow> None
      | c # cs \<Rightarrow> (case digit_val c of None \<Rightarrow> None | Some v \<Rightarrow> more_digits v cs))"

definition py_int :: "string \<Rightarrow> int option" where
  "py_int s =
     (case strip s of
        [] \<Rightarrow> None
      | c # cs \<Rightarrow>
          if c = CHR ''+'' then map_option int (nat_literal cs)
          else if c = CHR ''-'' then map_option (\<lambda>n. - int n) (nat_literal cs)
          else map_option int (nat_literal (c # cs)))"

text \<open>Decimal digits and the number they write, for the proofs about file names.\<close>

definition is_digit :: "char \<Rightarrow> bool" where
  "is_digit c = (c \<in> set ''0123456789'')"

definition dec_val :: "nat \<Rightarrow> string \<Rightarrow> nat" where
  "dec_val acc ds = foldl (\<lambda>a c. 10 * a + (of_char c - 48)) acc ds"

subsection \<open>File names\<close>

text \<open>
  \<open>os.path.splitext(name)[0]\<close> for a base name: the name up to its last dot, unless only
  dots come before that dot.
\<close>

definition splitext_stem :: "string \<Rightarrow> string" where
  "splitext_stem name =
     (if CHR ''.'' \<notin> set name then name
      else (let stem = rev (tl (dropWhile (\<lambda>c. c \<noteq> CHR ''.'') (rev name)))
            in if filter (\<lambda>c. c \<noteq> CHR ''.'') stem = [] then name else stem))"

text \<open>\<open>name.split(".")[-1]\<close>: what follows the last dot, the whole name when it has none.\<close>

definition last_dot_part :: "string \<Rightarrow> string" where
  "last_dot_part name = rev (takeWhile (\<lambda>c. c \<noteq> CHR ''.'') (rev name))"

text \<open>
  Shell patterns as \<open>glob\<close> reads them: \<open>*\<close>, a character class, a literal character.
  \<open>image_pattern\<close> is the pattern \<open>*.[jpJP][pnPN]*[gG]\<close> of the source, and \<open>glob\<close> skips a
  name that starts with a dot for a pattern that does not.
\<close>

datatype gpat = Star | OneOf "char list" | Lit char

fun fnmatch :: "gpat list \<Rightarrow> string \<Rightarrow> bool" where
  "fnmatch [] s = (s = [])"
| "fnmatch (Star # ps) [] = fnmatch ps []"
| "fnmatch (Star # ps) (c # cs) = (fnmatch ps (c # cs) \<or> fnmatch (Star # ps) cs)"
| "fnmatch (OneOf xs # ps) [] = False"
| "fnmatch (OneOf xs # ps) (c # cs) = (c \<in> set xs \<and> fnmatch ps cs)"
| "fnmatch (Lit x # ps) [] = False"
| "fnmatch (Lit x # ps) (c # cs) = (c = x \<and> fnmatch ps cs)"

definition image_pattern :: "gpat list" where
  "image_pattern = [Star, Lit (CHR ''.''), OneOf ''jpJP'', OneOf ''pnPN'', Star, OneOf ''gG'']"

definition glob_match :: "string \<Rightarrow> bool" where
  "glob_match name = (name \<noteq> [] \<and> hd name \<noteq> CHR ''.'' \<and> fnmatch image_pattern name)"

text \<open>
  A directory is the list of its files, name and content, in the order the operating
  system lists them; names are base names. Writing a file replaces the content of an
  existing name and adds a new name otherwise.
\<close>

type_synonym 'a dir = "(string \<times> 'a) list"

fun write_file :: "string \<Rightarrow> 'a \<Rightarrow> 'a dir \<Rightarrow> 'a dir" where
  "write_file name x [] = [(name, x)]"
| "write_file name x ((n, y) # files) =
     (if n = name then (n, x) # files else (n, y) # write_file name x files)"

text \<open>
  \<open>sorted(names, key=lambda x: int(os.path.splitext(os.path.basename(x))[0]))\<close>, on the
  files found (each name with its content): the sort is stable, and raises \<open>ValueError\<close>
  when a stem is no integer.
\<close>

definition stem_key :: "string \<Rightarrow> int option" where
  "stem_key name = py_int (splitext_stem name)"

definition sorted_by_stem :: "'a dir \<Rightarrow> py_error + 'a dir" where
  "sorted_by_stem found =
     (if list_all (\<lambda>(name, x). stem_key name \<noteq> None) found
      then Inr (sort_key (\<lambda>(name, x). the (stem_key name)) found)
      else Inl ValueError)"

section \<open>The avatar: \<open>src/utils/digital_human/realtime_inference.py\<close>\<close>

subsection \<open>Data\<close>

text \<open>
  Images (frames, masks, reconstructed crops), latent codes, audio feature chunks and
  encoded videos are opaque to this code, which only moves them around: each is a
  numbered token.
\<close>

datatype image = Image nat
datatype latent = Latent nat
datatype chunk = Chunk nat
datatype video = Video nat

type_synonym bbox = "int \<times> int \<times> int \<times> int"

definition coord_placeholder :: bbox where
  "coord_placeholder = (0, 0, 0, 0)"

text \<open>The dictionary \<open>self.avatar_info\<close>, which is the content of \<open>avator_info.json\<close>.\<close>

record avatar_info =
  info_avatar_id :: string
  info_video_path :: string
  info_bbox_shift :: int

text \<open>The constructor's arguments that the methods read.\<close>

record avatar =
  avatar_id :: string
  video_path :: string
  bbox_shift :: int
  batch_size :: nat
  preparation_force :: bool

definition avatar_info_of :: "avatar \<Rightarrow> avatar_info" where
  "avatar_info_of self =
     \<lparr>info_avatar_id = avatar_id self, info_video_path = video_path self,
      info_bbox_shift = bbox_shift self\<rparr>"

text \<open>The five cyclic lists, attributes of the avatar and fields of \<open>HandlerDigitalHuman\<close>.\<close>

record cycles =
  frame_list_cycle :: "image list"
  coord_list_cycle :: "bbox list"
  input_latent_list_cycle :: "latent list"
  mask_coords_list_cycle :: "bbox list"
  mask_list_cycle :: "image list"

text \<open>
  The working directory \<open>avatar_path\<close>: the manifest, the two image directories, the three
  serialized lists, and what a render leaves there. A file that does not exist is
  \<open>None\<close>. The directories \<open>full_imgs\<close> and \<open>mask\<close> are their file lists: they are made with
  the working directory, before anything is written to them.
\<close>

record avatar_dir =
  avator_info_json :: "avatar_info option"
  full_imgs :: "image dir"
  mask_dir :: "image dir"
  coords_pkl :: "bbox list option"
  latents_pt :: "latent list option"
  mask_coords_pkl :: "bbox list option"
  tmp_dir :: "image dir option"
  temp_mp4 :: "video option"

definition empty_dir :: avatar_dir where
  "empty_dir =
     \<lparr>avator_info_json = None, full_imgs = [], mask_dir = [], coords_pkl = None,
      latents_pt = None, mask_coords_pkl = None, tmp_dir = None, temp_mp4 = None\<rparr>"

text \<open>What \<open>video_path\<close> names: a video file (its decodable frames), a directory, or nothing.\<close>

datatype source = VideoFile "image list" | ImageDir "image dir" | NoSource

text \<open>
  The operations on files and the calls of collaborators that \<open>init\<close> and
  \<open>prepare_material\<close> make, recorded in the order they happen.
\<close>

datatype event =
    Rmtree
  | Makedirs
  | LoadManifest
  | WriteManifest avatar_info
  | WriteFullImg string
  | CopyFile string
  | LandmarkAndBbox
  | GetLatents
  | PrepareMaterial
  | WriteMask string
  | DumpMaskCoords
  | DumpCoords
  | SaveLatents
  | LoadLatents
  | LoadCoords
  | LoadFullImgs
  | LoadMaskCoords
  | LoadMasks

text \<open>
  The world outside the process: the working directory (\<open>None\<close> when it does not exist),
  the source material, the files at other paths (the output videos), and the record of
  events.
\<close>

record world =
  avatar_path :: "avatar_dir option"
  video_src :: source
  out_files :: "string \<rightharpoonup> video"
  events :: "event list"

text \<open>
  The collaborators, which are not among the sources, are parameters. Each returns
  \<open>None\<close> when it raises.
  \<^item> \<open>get_landmark_and_bbox\<close>: the images of the listed files and \<open>bbox_shift\<close> to the list
    of boxes and the list of frames;
  \<^item> \<open>resize_crop\<close>: \<open>cv2.resize(frame[y1:y2, x1:x2], (256, 256), ...)\<close>;
  \<^item> \<open>get_latents_for_unet\<close>, \<open>get_image_prepare_material\<close>, \<open>get_image_blending\<close>: as named
    in the source;
  \<^item> \<open>audio_chunks\<close>: \<open>audio2feat\<close> followed by \<open>feature2chunks\<close>, for a path and \<open>fps\<close>;
  \<^item> \<open>generate\<close>: positional encoding, the UNet and \<open>decode_latents\<close> on one batch;
  \<^item> \<open>cv2_resize\<close>: \<open>cv2.resize(res_frame.astype(np.uint8), (w, h))\<close>;
  \<^item> \<open>ffmpeg_img2video\<close>, \<open>ffmpeg_combine\<close>: the two \<open>os.system\<close> commands, from what they
    read to their exit status and the file they write, if any.
\<close>

record collab =
  get_landmark_and_bbox :: "image list \<Rightarrow> int \<Rightarrow> (bbox list \<times> image list) option"
  resize_crop :: "image \<Rightarrow> bbox \<Rightarrow> image option"
  get_latents_for_unet :: "image \<Rightarrow> latent option"
  get_image_prepare_material :: "image \<Rightarrow> bbox \<Rightarrow> (image \<times> bbox) option"
  get_image_blending :: "image \<Rightarrow> image \<Rightarrow> bbox \<Rightarrow> image \<Rightarrow> bbox \<Rightarrow> image option"
  audio_chunks :: "string \<Rightarrow> nat \<Rightarrow> chunk list option"
  generate :: "(chunk \<times> latent) list \<Rightarrow> image list option"
  cv2_resize :: "image \<Rightarrow> int \<times> int \<Rightarrow> image option"
  ffmpeg_img2video :: "image dir option \<Rightarrow> nat \<Rightarrow> int \<times> video option"
  ffmpeg_combine :: "string \<Rightarrow> video option \<Rightarrow> int \<times> video option"

subsection \<open>Effects\<close>

text \<open>
  A method that reads and writes files takes the world and returns the new world with
  its result or the exception it raised.
\<close>

type_synonym 'a io = "world \<Rightarrow> (py_error + 'a) \<times> world"

definition io_return :: "'a \<Rightarrow> 'a io" where
  "io_return x w = (Inr x, w)"

definition io_raise :: "py_error \<Rightarrow> 'a io" where
  "io_raise e w = (Inl e, w)"

definition io_bind :: "'a io \<Rightarrow> ('a \<Rightarrow> 'b io) \<Rightarrow> 'b io" where
  "io_bind m k w = (case m w of (Inl e, w') \<Rightarrow> (Inl e, w') | (Inr x, w') \<Rightarrow> k x w')"

definition emit :: "event \<Rightarrow> unit io" where
  "emit e w = (Inr (), w\<lparr>events := events w @ [e]\<rparr>)"

text \<open>
  Opening a file of the working directory for writing (\<open>open(..., "w")\<close>, \<open>pickle.dump\<close>,
  \<open>torch.save\<close>, \<open>shutil.copyfile\<close>) raises when the directory does not exist.
\<close>

definition modify_dir :: "(avatar_dir \<Rightarrow> avatar_dir) \<Rightarrow> unit io" where
  "modify_dir f w =
     (case avatar_path w of
        None \<Rightarrow> (Inl FileNotFoundError, w)
      | Some d \<Rightarrow> (Inr (), w\<lparr>avatar_path := Some (f d)\<rparr>))"

text \<open>\<open>cv2.imwrite\<close> returns \<open>False\<close>, and does not raise, when the directory does not exist.\<close>

definition imwrite_dir :: "(avatar_dir \<Rightarrow> avatar_dir) \<Rightarrow> unit io" where
  "imwrite_dir f w =
     (case avatar_path w of
        None \<Rightarrow> (Inr (), w)
      | Some d \<Rightarrow> (Inr (), w\<lparr>avatar_path := Some (f d)\<rparr>))"

text \<open>Reading a file (\<open>open(..., "r")\<close>, \<open>pickle.load\<close>, \<open>torch.load\<close>) raises when it is missing.\<close>

definition read_file :: "(avatar_dir \<Rightarrow> 'a option) \<Rightarrow> 'a io" where
  "read_file f w =
     (case avatar_path w of
        None \<Rightarrow> (Inl FileNotFoundError, w)
      | Some d \<Rightarrow> (case f d of None \<Rightarrow> (Inl FileNotFoundError, w) | Some x \<Rightarrow> (Inr x, w)))"

text \<open>\<open>glob.glob\<close> of the image pattern in a directory: no match when there is no directory.\<close>

definition glob_images :: "(avatar_dir \<Rightarrow> image dir) \<Rightarrow> image dir io" where
  "glob_images f w =
     (case avatar_path w of
        None \<Rightarrow> (Inr [], w)
      | Some d \<Rightarrow> (Inr (filter (\<lambda>(name, img). glob_match name) (f d)), w))"

definition imwrite_full :: "string \<Rightarrow> image \<Rightarrow> unit io" where
  "imwrite_full name frame =
     io_bind (emit (WriteFullImg name)) (\<lambda>_.
     imwrite_dir (\<lambda>d. d\<lparr>full_imgs := write_file name frame (full_imgs d)\<rparr>))"

definition imwrite_mask :: "string \<Rightarrow> image \<Rightarrow> unit io" where
  "imwrite_mask name m =
     io_bind (emit (WriteMask name)) (\<lambda>_.
     imwrite_dir (\<lambda>d. d\<lparr>mask_dir := write_file name m (mask_dir d)\<rparr>))"

text \<open>A call of a collaborator: the event, then its result or its exception.\<close>

definition call :: "event \<Rightarrow> 'a option \<Rightarrow> 'a io" where
  "call e r =
     io_bind (emit e) (\<lambda>_. case r of None \<Rightarrow> io_raise CollaboratorError | Some x \<Rightarrow> io_return x)"

text \<open>
  For the proofs: a method keeps a relation between the world before and the world
  after when the relation holds whatever the method returns or raises. \<open>later\<close> is the
  relation of a world to one in which more events have happened and the manifest, if
  there was a working directory, is still the same file.
\<close>

definition stable :: "(world \<Rightarrow> world \<Rightarrow> bool) \<Rightarrow> 'a io \<Rightarrow> bool" where
  "stable R m = (\<forall>w. R w (snd (m w)))"

definition later :: "world \<Rightarrow> world \<Rightarrow> bool" where
  "later w w' =
     ((\<exists>es. events w' = events w @ es)
      \<and> (\<forall>d. avatar_path w = Some d \<longrightarrow>
             (\<exists>d'. avatar_path w' = Some d' \<and> avator_info_json d' = avator_info_json d)))"

text \<open>
  For the proofs that a method returns: from every world that satisfies \<open>P\<close> the method
  returns a result, and the result and the new world satisfy \<open>Q\<close>. \<open>numbered_dirs\<close> are
  the worlds whose working directory exists and whose image files all have the names
  that the preparation gives them.
\<close>

definition returns :: "(world \<Rightarrow> bool) \<Rightarrow> 'a io \<Rightarrow> ('a \<Rightarrow> world \<Rightarrow> bool) \<Rightarrow> bool" where
  "returns P m Q = (\<forall>w. P w \<longrightarrow> (\<exists>x w'. m w = (Inr x, w') \<and> Q x w'))"

definition numbered :: "'a dir \<Rightarrow> bool" where
  "numbered files = (\<forall>name \<in> set (map fst files). name \<in> range png_name)"

definition numbered_dirs :: "world \<Rightarrow> bool" where
  "numbered_dirs w =
     (\<exists>d. avatar_path w = Some d \<and> numbered (full_imgs d) \<and> numbered (mask_dir d))"

subsection \<open>\<open>video2imgs\<close>\<close>

text \<open>
  The loop of \<open>video2imgs\<close>: \<open>cap\<close> is what \<open>cap.read()\<close> has still to return, \<open>count\<close> the
  local counter, a Python integer that starts at 0 and is never negative. The frames
  are written to \<open>save_path\<close>, which is \<open>full_imgs_path\<close> at the only call.
\<close>

fun video2imgs_loop :: "image list \<Rightarrow> int \<Rightarrow> int \<Rightarrow> unit io" where
  "video2imgs_loop [] cut_frame count = io_return ()"
| "video2imgs_loop (frame # cap) cut_frame count =
     (if count > cut_frame then io_return ()
      else io_bind (imwrite_full (png_name (nat count)) frame) (\<lambda>_.
           video2imgs_loop cap cut_frame (count + 1)))"

definition video2imgs :: "image list \<Rightarrow> int \<Rightarrow> unit io" where
  "video2imgs cap cut_frame = video2imgs_loop cap cut_frame 0"

subsection \<open>\<open>Avatar.prepare_material\<close>\<close>

definition write_manifest :: "avatar_info \<Rightarrow> unit io" where
  "write_manifest info =
     io_bind (emit (WriteManifest info)) (\<lambda>_.
     modify_dir (\<lambda>d. d\<lparr>avator_info_json := Some info\<rparr>))"

text \<open>The loop that copies the \<open>png\<close> files of a source directory, in sorted order.\<close>

fun copy_loop :: "image dir \<Rightarrow> unit io" where
  "copy_loop [] = io_return ()"
| "copy_loop ((filename, content) # files) =
     io_bind (emit (CopyFile filename)) (\<lambda>_.
     io_bind (modify_dir (\<lambda>d. d\<lparr>full_imgs := write_file filename content (full_imgs d)\<rparr>)) (\<lambda>_.
     copy_loop files))"

text \<open>Lines 151 to 159: the frames of the source, decoded or copied, go to \<open>full_imgs\<close>.\<close>

definition materialize_frames :: "unit io" where
  "materialize_frames w =
     (case video_src w of
        VideoFile cap \<Rightarrow> video2imgs cap 10000000 w
      | ImageDir files \<Rightarrow>
          copy_loop (filter (\<lambda>(name, content). last_dot_part name = ''png'')
                       (sort_key fst files)) w
      | NoSource \<Rightarrow> (Inl FileNotFoundError, w))"

text \<open>
  The loop of lines 171 to 179 over \<open>zip(coord_list, frame_list)\<close>: a frame with the
  placeholder box is passed over, every other frame gives one latent code.
\<close>

fun latents_loop :: "collab \<Rightarrow> (bbox \<times> image) list \<Rightarrow> latent list \<Rightarrow> latent list io" where
  "latents_loop col [] input_latent_list = io_return input_latent_list"
| "latents_loop col ((box, frame) # rest) input_latent_list =
     (if box = coord_placeholder then latents_loop col rest input_latent_list
      else (case resize_crop col frame box of
              None \<Rightarrow> io_raise CollaboratorError
            | Some resized_crop_frame \<Rightarrow>
                io_bind (call GetLatents (get_latents_for_unet col resized_crop_frame)) (\<lambda>latents.
                latents_loop col rest (input_latent_list @ [latents]))))"

text \<open>
  The loop of lines 187 to 194 over \<open>enumerate(self.frame_list_cycle)\<close>;
  \<open>self.coord_list_cycle[i]\<close> raises when the list of boxes is too short.
\<close>

fun masks_loop ::
  "collab \<Rightarrow> bbox list \<Rightarrow> (nat \<times> image) list \<Rightarrow> bbox list \<Rightarrow> image list
     \<Rightarrow> (bbox list \<times> image list) io" where
  "masks_loop col coords [] mask_coords masks = io_return (mask_coords, masks)"
| "masks_loop col coords ((i, frame) # rest) mask_coords masks =
     io_bind (imwrite_full (png_name i) frame) (\<lambda>_.
     if length coords \<le> i then io_raise IndexError
     else io_bind (call PrepareMaterial (get_image_prepare_material col frame (coords ! i)))
            (\<lambda>(m, crop_box).
          io_bind (imwrite_mask (png_name i) m) (\<lambda>_.
          masks_loop col coords rest (mask_coords @ [crop_box]) (masks @ [m]))))"

definition prepare_material :: "collab \<Rightarrow> avatar \<Rightarrow> cycles io" where
  "prepare_material col self =
     io_bind (write_manifest (avatar_info_of self)) (\<lambda>_.
     io_bind materialize_frames (\<lambda>_.
     io_bind (glob_images full_imgs) (\<lambda>found.
     (let input_img_list = sort_key fst found in
     io_bind (call LandmarkAndBbox
                (get_landmark_and_bbox col (map snd input_img_list) (bbox_shift self)))
       (\<lambda>(coord_list, frame_list).
     io_bind (latents_loop col (zip coord_list frame_list) []) (\<lambda>input_latent_list.
     (let frames = frame_list @ rev frame_list;
          coords = coord_list @ rev coord_list;
          latents = input_latent_list @ rev input_latent_list in
     io_bind (masks_loop col coords (enumerate 0 frames) [] []) (\<lambda>(mask_coords, masks).
     io_bind (emit DumpMaskCoords) (\<lambda>_.
     io_bind (modify_dir (\<lambda>d. d\<lparr>mask_coords_pkl := Some mask_coords\<rparr>)) (\<lambda>_.
     io_bind (emit DumpCoords) (\<lambda>_.
     io_bind (modify_dir (\<lambda>d. d\<lparr>coords_pkl := Some coords\<rparr>)) (\<lambda>_.
     io_bind (emit SaveLatents) (\<lambda>_.
     io_bind (modify_dir (\<lambda>d. d\<lparr>latents_pt := Some latents\<rparr>)) (\<lambda>_.
     io_return
       \<lparr>frame_list_cycle = frames, coord_list_cycle = coords,
        input_latent_list_cycle = latents, mask_coords_list_cycle = mask_coords,
        mask_list_cycle = masks\<rparr>))))))))))))))"

subsection \<open>\<open>Avatar.init\<close>\<close>

definition rmtree_avatar_path :: "unit io" where
  "rmtree_avatar_path =
     io_bind (emit Rmtree) (\<lambda>_ w.
       case avatar_path w of
         None \<Rightarrow> (Inl FileNotFoundError, w)
       | Some d \<Rightarrow> (Inr (), w\<lparr>avatar_path := None\<rparr>))"

text \<open>
  \<open>osmakedirs\<close> on the working directory and its subdirectories: each is made unless it
  exists.
\<close>

definition osmakedirs :: "unit io" where
  "osmakedirs =
     io_bind (emit Makedirs) (\<lambda>_ w.
       case avatar_path w of
         None \<Rightarrow> (Inr (), w\<lparr>avatar_path := Some empty_dir\<rparr>)
       | Some d \<Rightarrow> (Inr (), w))"

text \<open>Lines 111 to 125: the value of \<open>need_to_prepare\<close>, and the deletion of a stale tree.\<close>

definition need_to_prepare :: "avatar \<Rightarrow> bool io" where
  "need_to_prepare self w =
     (if preparation_force self \<and> avatar_path w \<noteq> None
      then io_bind rmtree_avatar_path (\<lambda>_. io_return True) w
      else if avatar_path w = None then io_return True w
      else io_bind (emit LoadManifest) (\<lambda>_.
           io_bind (read_file avator_info_json) (\<lambda>info.
           if info_bbox_shift info \<noteq> info_bbox_shift (avatar_info_of self)
           then io_bind rmtree_avatar_path (\<lambda>_. io_return True)
           else io_return False)) w)"

text \<open>
  Modelled from the spec: \<open>read_imgs\<close> of \<open>musetalk.utils.preprocessing\<close>, which is not among
  the sources; it loads the image of each listed file, in the order of the list.
\<close>

definition read_imgs :: "image dir \<Rightarrow> image list" where
  "read_imgs img_list = map snd img_list"

definition load_sorted_images :: "(avatar_dir \<Rightarrow> image dir) \<Rightarrow> image list io" where
  "load_sorted_images f =
     io_bind (glob_images f) (\<lambda>found.
     case sorted_by_stem found of
       Inl e \<Rightarrow> io_raise e
     | Inr img_list \<Rightarrow> io_return (read_imgs img_list))"

text \<open>Lines 134 to 144: the five lists are loaded from the working directory.\<close>

definition load_cycles :: "cycles io" where
  "load_cycles =
     io_bind (emit LoadLatents) (\<lambda>_.
     io_bind (read_file latents_pt) (\<lambda>latents.
     io_bind (emit LoadCoords) (\<lambda>_.
     io_bind (read_file coords_pkl) (\<lambda>coords.
     io_bind (emit LoadFullImgs) (\<lambda>_.
     io_bind (load_sorted_images full_imgs) (\<lambda>frames.
     io_bind (emit LoadMaskCoords) (\<lambda>_.
     io_bind (read_file mask_coords_pkl) (\<lambda>mask_coords.
     io_bind (emit LoadMasks) (\<lambda>_.
     io_bind (load_sorted_images mask_dir) (\<lambda>masks.
     io_return
       \<lparr>frame_list_cycle = frames, coord_list_cycle = coords,
        input_latent_list_cycle = latents, mask_coords_list_cycle = mask_coords,
        mask_list_cycle = masks\<rparr>))))))))))"

definition init :: "collab \<Rightarrow> avatar \<Rightarrow> cycles io" where
  "init col self =
     io_bind (need_to_prepare self) (\<lambda>need.
     io_bind (if need
              then io_bind osmakedirs (\<lambda>_.
                   io_bind (prepare_material col self) (\<lambda>_. io_return ()))
              else io_return ()) (\<lambda>_.
     load_cycles))"

subsection \<open>\<open>Avatar.process_frames\<close>\<close>

text \<open>
  What the consumer thread owns: the counter \<open>self.idx\<close> and the files of
  \<open>avatar_path/tmp\<close>. \<open>skipped\<close> is not in the source: it counts the passes through
  \<open>except: continue\<close>.
\<close>

record consumer =
  idx :: nat
  tmp_files :: "image dir"
  skipped :: nat

text \<open>
  Lines 215 to 229, the body of the loop once a frame has been taken from the queue.
  \<open>n % len(xs)\<close> raises on an empty list; a failure of the resize is swallowed and leaves
  the counter as it is; any other exception ends the thread.
\<close>

definition frame_body ::
  "collab \<Rightarrow> cycles \<Rightarrow> bool \<Rightarrow> image \<Rightarrow> consumer \<Rightarrow> py_error + consumer" where
  "frame_body col cy skip_save_images res_frame c =
     (if coord_list_cycle cy = [] then Inl ZeroDivisionError
      else let box = coord_list_cycle cy ! (idx c mod length (coord_list_cycle cy)) in
      if frame_list_cycle cy = [] then Inl ZeroDivisionError
      else let ori_frame = frame_list_cycle cy ! (idx c mod length (frame_list_cycle cy)) in
      case box of (x1, y1, x2, y2) \<Rightarrow>
      (case cv2_resize col res_frame (x2 - x1, y2 - y1) of
         None \<Rightarrow> Inr (c\<lparr>skipped := skipped c + 1\<rparr>)
       | Some resized \<Rightarrow>
           if mask_list_cycle cy = [] then Inl ZeroDivisionError
           else let m = mask_list_cycle cy ! (idx c mod length (mask_list_cycle cy)) in
           if mask_coords_list_cycle cy = [] then Inl ZeroDivisionError
           else let mask_crop_box =
                  mask_coords_list_cycle cy ! (idx c mod length (mask_coords_list_cycle cy)) in
           (case get_image_blending col ori_frame resized box m mask_crop_box of
              None \<Rightarrow> Inl CollaboratorError
            | Some combine_frame \<Rightarrow>
                Inr (c\<lparr>tmp_files :=
                         (if skip_save_images then tmp_files c
                          else write_file (png_name (idx c)) combine_frame (tmp_files c)),
                       idx := idx c + 1\<rparr>))))"

text \<open>
  How the thread ends: it leaves the loop, it raises, or it waits for ever on a queue
  that stays empty (each \<open>get\<close> times out and the loop continues).
\<close>

datatype thread_end = Finished consumer | Died py_error consumer | Blocked consumer

text \<open>The state of the consumer when its thread ends, or where it waits.\<close>

fun end_state :: "thread_end \<Rightarrow> consumer" where
  "end_state (Finished c) = c"
| "end_state (Died e c) = c"
| "end_state (Blocked c) = c"

text \<open>
  \<open>process_frames\<close> against the frames that are put on the queue during the render, in
  the order they are put.
\<close>

fun process_frames ::
  "collab \<Rightarrow> cycles \<Rightarrow> nat \<Rightarrow> bool \<Rightarrow> image list \<Rightarrow> consumer \<Rightarrow> thread_end" where
  "process_frames col cy video_len skip_save_images [] c =
     (if int (idx c) \<ge> int video_len - 1 then Finished c else Blocked c)"
| "process_frames col cy video_len skip_save_images (res_frame # res_frame_queue) c =
     (if int (idx c) \<ge> int video_len - 1 then Finished c
      else (case frame_body col cy skip_save_images res_frame c of
              Inl e \<Rightarrow> Died e c
            | Inr c' \<Rightarrow> process_frames col cy video_len skip_save_images res_frame_queue c'))"

subsection \<open>The two threads of a render\<close>

text \<open>
  \<open>queue.Queue()\<close> is made without a size: \<open>maxsize\<close> is 0, and a queue is full only when
  \<open>maxsize\<close> is positive and reached.
\<close>

definition maxsize :: int where
  "maxsize = 0"

definition queue_full :: "image list \<Rightarrow> bool" where
  "queue_full q = (0 < maxsize \<and> maxsize \<le> int (length q))"

datatype thread_status = Running | Ended | Crashed py_error

text \<open>
  A state of the render: the frames the driving thread has still to put, the queue, and
  the consumer thread.
\<close>

record render_state =
  to_put :: "image list"
  res_frame_queue :: "image list"
  thread :: consumer
  status :: thread_status

text \<open>
  One step of either thread: the driving thread puts its next frame unless the queue is
  full; the consumer leaves its loop, finds the queue empty and tries again, or takes
  a frame and runs the body on it.
\<close>

inductive render_step ::
  "collab \<Rightarrow> cycles \<Rightarrow> nat \<Rightarrow> bool \<Rightarrow> render_state \<Rightarrow> render_state \<Rightarrow> bool"
  for col :: collab and cy :: cycles and video_len :: nat and skip_save_images :: bool
where
  put:
    "to_put s = r # rest \<Longrightarrow> \<not> queue_full (res_frame_queue s) \<Longrightarrow>
     render_step col cy video_len skip_save_images s
       (s\<lparr>to_put := rest, res_frame_queue := res_frame_queue s @ [r]\<rparr>)"
| leave:
    "status s = Running \<Longrightarrow> int (idx (thread s)) \<ge> int video_len - 1 \<Longrightarrow>
     render_step col cy video_len skip_save_images s (s\<lparr>status := Ended\<rparr>)"
| empty:
    "status s = Running \<Longrightarrow> int (idx (thread s)) < int video_len - 1 \<Longrightarrow>
     res_frame_queue s = [] \<Longrightarrow>
     render_step col cy video_len skip_save_images s s"
| get:
    "status s = Running \<Longrightarrow> int (idx (thread s)) < int video_len - 1 \<Longrightarrow>
     res_frame_queue s = r # q \<Longrightarrow>
     frame_body col cy skip_save_images r (thread s) = Inr c' \<Longrightarrow>
     render_step col cy video_len skip_save_images s (s\<lparr>res_frame_queue := q, thread := c'\<rparr>)"
| crash:
    "status s = Running \<Longrightarrow> int (idx (thread s)) < int video_len - 1 \<Longrightarrow>
     res_frame_queue s = r # q \<Longrightarrow>
     frame_body col cy skip_save_images r (thread s) = Inl e \<Longrightarrow>
     render_step col cy video_len skip_save_images s
       (s\<lparr>res_frame_queue := q, status := Crashed e\<rparr>)"

definition render_start :: "image list \<Rightarrow> image dir \<Rightarrow> render_state" where
  "render_start recon tmp0 =
     \<lparr>to_put = recon, res_frame_queue = [],
      thread = \<lparr>idx = 0, tmp_files = tmp0, skipped = 0\<rparr>, status = Running\<rparr>"

subsection \<open>\<open>Avatar.inference\<close>\<close>

text \<open>
  Modelled from the spec: \<open>datagen\<close> of \<open>musetalk.utils.utils\<close>, which is not among the
  sources. The feature chunks are split into batches of \<open>batch_size\<close>, the last one
  possibly shorter, and chunk \<open>i\<close> is paired with the latent code at cyclic position
  \<open>i mod L\<close>, the indices increasing across batches. A position modulo the empty list is
  a division by zero; \<open>batch_size\<close> 0 does not reach \<open>datagen\<close>.
\<close>

function batches :: "nat \<Rightarrow> 'a list \<Rightarrow> 'a list list" where
  "batches n xs = (if n = 0 \<or> xs = [] then [] else take n xs # batches n (drop n xs))"
  by pat_completeness auto
termination
  by (relation "measure (\<lambda>(n, xs). length xs)") auto

declare batches.simps [simp del]

definition datagen ::
  "chunk list \<Rightarrow> latent list \<Rightarrow> nat \<Rightarrow> py_error + (chunk \<times> latent) list list" where
  "datagen whisper_chunks latents n =
     (if whisper_chunks \<noteq> [] \<and> latents = [] then Inl ZeroDivisionError
      else Inr (batches n
                  (map (\<lambda>i. (whisper_chunks ! i, latents ! (i mod length latents)))
                     [0..<length whisper_chunks])))"

text \<open>
  The loop of lines 250 to 264, batch by batch: all the frames it puts on the queue, or
  the exception of the collaborator.
\<close>

fun produce :: "collab \<Rightarrow> (chunk \<times> latent) list list \<Rightarrow> py_error + image list" where
  "produce col [] = Inr []"
| "produce col (batch # gen) =
     (case generate col batch of
        None \<Rightarrow> Inl CollaboratorError
      | Some recon \<Rightarrow>
          (case produce col gen of Inl e \<Rightarrow> Inl e | Inr rest \<Rightarrow> Inr (recon @ rest)))"

text \<open>
  How a call of \<open>inference\<close> ends: it returns the output path; it raises, before the
  consumer thread is started or after it was joined; it raises in the driving thread
  while the consumer thread is still running; or \<open>join\<close> never returns.
\<close>

datatype outcome =
    Returned string world
  | Raised py_error world
  | RaisedUnjoined py_error
  | Hangs

text \<open>\<open>os.makedirs(self.avatar_path + "/tmp", exist_ok=True)\<close> makes the parents too.\<close>

definition tmp_listing :: "avatar_dir \<Rightarrow> image dir" where
  "tmp_listing d = (case tmp_dir d of None \<Rightarrow> [] | Some files \<Rightarrow> files)"

definition makedirs_tmp :: "world \<Rightarrow> avatar_dir" where
  "makedirs_tmp w =
     (let d = (case avatar_path w of None \<Rightarrow> empty_dir | Some d \<Rightarrow> d)
      in d\<lparr>tmp_dir := Some (tmp_listing d)\<rparr>)"

text \<open>
  Lines 270 to 283, on the working directory \<open>d\<close> as the joined consumer left it: the two
  encoder commands, whose exit status \<open>os.system\<close> returns and the code drops, then
  \<open>os.remove\<close> and \<open>shutil.rmtree\<close>, each of which raises on a path that does not exist.
\<close>

definition assemble :: "collab \<Rightarrow> string \<Rightarrow> string \<Rightarrow> nat \<Rightarrow> avatar_dir \<Rightarrow> world \<Rightarrow> outcome" where
  "assemble col audio_path output_vid fps d w =
     (let (status1, written1) = ffmpeg_img2video col (tmp_dir d) fps;
          d1 = (case written1 of None \<Rightarrow> d | Some v \<Rightarrow> d\<lparr>temp_mp4 := Some v\<rparr>);
          (status2, written2) = ffmpeg_combine col audio_path (temp_mp4 d1);
          files = (case written2 of
                     None \<Rightarrow> out_files w
                   | Some v \<Rightarrow> (out_files w)(output_vid \<mapsto> v))
      in case temp_mp4 d1 of
           None \<Rightarrow> Raised FileNotFoundError (w\<lparr>avatar_path := Some d1, out_files := files\<rparr>)
         | Some v \<Rightarrow>
             (let d2 = d1\<lparr>temp_mp4 := None\<rparr>
              in case tmp_dir d2 of
                   None \<Rightarrow>
                     Raised FileNotFoundError (w\<lparr>avatar_path := Some d2, out_files := files\<rparr>)
                 | Some frames \<Rightarrow>
                     Returned output_vid
                       (w\<lparr>avatar_path := Some (d2\<lparr>tmp_dir := None\<rparr>), out_files := files\<rparr>)))"

definition inference ::
  "collab \<Rightarrow> avatar \<Rightarrow> cycles \<Rightarrow> string \<Rightarrow> string \<Rightarrow> nat \<Rightarrow> bool \<Rightarrow> world \<Rightarrow> outcome" where
  "inference col self cy audio_path output_vid fps skip_save_images w =
     (let d = makedirs_tmp w in
      case audio_chunks col audio_path fps of
        None \<Rightarrow> Raised CollaboratorError (w\<lparr>avatar_path := Some d\<rparr>)
      | Some whisper_chunks \<Rightarrow>
          (let video_num = length whisper_chunks;
               c0 = \<lparr>idx = 0, tmp_files = tmp_listing d, skipped = 0\<rparr>
           in if batch_size self = 0 then RaisedUnjoined ZeroDivisionError
              else (case datagen whisper_chunks (input_latent_list_cycle cy) (batch_size self) of
                      Inl e \<Rightarrow> RaisedUnjoined e
                    | Inr gen \<Rightarrow>
                        (case produce col gen of
                           Inl e \<Rightarrow> RaisedUnjoined e
                         | Inr recon \<Rightarrow>
                             (case process_frames col cy video_num skip_save_images recon c0 of
                                Blocked c \<Rightarrow> Hangs
                              | Finished c \<Rightarrow>
                                  assemble col audio_path output_vid fps
                                    (d\<lparr>tmp_dir := Some (tmp_files c)\<rparr>) w
                              | Died e c \<Rightarrow>
                                  assemble col audio_path output_vid fps
                                    (d\<lparr>tmp_dir := Some (tmp_files c)\<rparr>) w)))))"

text \<open>What a call of \<open>inference\<close> returned, and the working directory it left behind.\<close>

fun returned :: "outcome \<Rightarrow> string option" where
  "returned (Returned path w) = Some path"
| "returned (Raised e w) = None"
| "returned (RaisedUnjoined e) = None"
| "returned Hangs = None"

fun raised :: "outcome \<Rightarrow> py_error option" where
  "raised (Returned path w) = None"
| "raised (Raised e w) = Some e"
| "raised (RaisedUnjoined e) = Some e"
| "raised Hangs = None"

fun left_behind :: "outcome \<Rightarrow> avatar_dir option" where
  "left_behind (Returned path w) = avatar_path w"
| "left_behind (Raised e w) = avatar_path w"
| "left_behind (RaisedUnjoined e) = None"
| "left_behind Hangs = None"

section \<open>The login endpoint: \<open>src/server/base/routers/users.py\<close>\<close>
















section \<open>Concrete inputs\<close>

text \<open>
  Collaborators that never raise, for evaluating the model on examples: the landmark
  estimator finds no face in image 0 and a box in every other image; the encoders
  succeed.
\<close>

definition sample_collab :: collab where
  "sample_collab =
     \<lparr>get_landmark_and_bbox =
        (\<lambda>imgs shift.
           Some (map (\<lambda>img. if img = Image 0 then coord_placeholder
                             else (1, 1, 5 + shift, 5 + shift)) imgs, imgs)),
      resize_crop = (\<lambda>img box. Some img),
      get_latents_for_unet = (\<lambda>img. case img of Image n \<Rightarrow> Some (Latent n)),
      get_image_prepare_material = (\<lambda>img box. Some (img, box)),
      get_image_blending = (\<lambda>ori_frame res_frame box m mask_crop_box. Some res_frame),
      audio_chunks = (\<lambda>path fps. Some (map Chunk [0..<length path])),
      generate = (\<lambda>batch. Some (map (\<lambda>(c, l). case c of Chunk n \<Rightarrow> Image n) batch)),
      cv2_resize = (\<lambda>img size. Some img),
      ffmpeg_img2video =
        (\<lambda>frames fps. (0, Some (Video (case frames of None \<Rightarrow> 0 | Some fs \<Rightarrow> length fs)))),
      ffmpeg_combine = (\<lambda>audio v. case v of None \<Rightarrow> (1, None) | Some x \<Rightarrow> (0, Some x))\<rparr>"

definition sample_avatar :: avatar where
  "sample_avatar =
     \<lparr>avatar_id = ''lelemiao'', video_path = ''video.mp4'', bbox_shift = 5, batch_size = 2,
      preparation_force = False\<rparr>"

text \<open>A world with a source video of three frames, the last without a face, and no cache.\<close>

definition sample_world :: world where
  "sample_world =
     \<lparr>avatar_path = None, video_src = VideoFile [Image 1, Image 2, Image 0],
      out_files = Map.empty, events = []\<rparr>"

text \<open>The lists of an avatar of two frames, both with a face.\<close>

definition sample_cycles :: cycles where
  "sample_cycles =
     \<lparr>frame_list_cycle = [Image 1, Image 2, Image 2, Image 1],
      coord_list_cycle = [(1, 1, 10, 10), (1, 1, 10, 10), (1, 1, 10, 10), (1, 1, 10, 10)],
      input_latent_list_cycle = [Latent 1, Latent 2, Latent 2, Latent 1],
      mask_coords_list_cycle = [(1, 1, 10, 10), (1, 1, 10, 10), (1, 1, 10, 10), (1, 1, 10, 10)],
      mask_list_cycle = [Image 1, Image 2, Image 2, Image 1]\<rparr>"



text \<open>The lists that the preparation of the sample video builds.\<close>

definition sample_prepared :: cycles where
  "sample_prepared =
     \<lparr>frame_list_cycle = [Image 1, Image 2, Image 0, Image 0, Image 2, Image 1],
      coord_list_cycle =
        [(1, 1, 10, 10), (1, 1, 10, 10), (0, 0, 0, 0),
         (0, 0, 0, 0), (1, 1, 10, 10), (1, 1, 10, 10)],
      input_latent_list_cycle = [Latent 1, Latent 2, Latent 2, Latent 1],
      mask_coords_list_cycle =
        [(1, 1, 10, 10), (1, 1, 10, 10), (0, 0, 0, 0),
         (0, 0, 0, 0), (1, 1, 10, 10), (1, 1, 10, 10)],
      mask_list_cycle = [Image 1, Image 2, Image 0, Image 0, Image 2, Image 1]\<rparr>"

text \<open>
  A world with a cache built for the sample avatar, whose image files are numbered
  without padding.
\<close>

definition cached_world :: world where
  "cached_world =
     \<lparr>avatar_path =
        Some \<lparr>avator_info_json = Some (avatar_info_of sample_avatar),
              full_imgs = [(''10.png'', Image 10), (''9.png'', Image 9)],
              mask_dir = [(''10.png'', Image 110), (''9.png'', Image 109)],
              coords_pkl = Some [(1, 1, 10, 10), (2, 2, 10, 10)],
              latents_pt = Some [Latent 9, Latent 10],
              mask_coords_pkl = Some [(0, 0, 12, 12), (1, 1, 12, 12)],
              tmp_dir = None, temp_mp4 = None\<rparr>,
      video_src = NoSource, out_files = Map.empty, events = []\<rparr>"

section \<open>Properties of the file names\<close>

lemma digit_char_is_digit: "d < 10 \<Longrightarrow> is_digit (digit_char d)"
proof -
  assume "d < 10"
  then have "d \<in> {0,1,2,3,4,5,6,7,8,9}" by auto
  then show ?thesis by (auto simp: is_digit_def digit_char_def)
qed

lemma digit_char_val: "d < 10 \<Longrightarrow> of_char (digit_char d) - 48 = d"
proof -
  assume "d < 10"
  then have "d \<in> {0,1,2,3,4,5,6,7,8,9}" by auto
  then show ?thesis by (auto simp: digit_char_def)
qed

lemma str_nat_digits: "list_all is_digit (str_nat n)"
proof (induction n rule: str_nat.induct)
  case (1 n)
  show ?case
  proof (cases "n < 10")
    case True
    then show ?thesis by (simp add: str_nat.simps [of n] digit_char_is_digit)
  next
    case False
    with 1 show ?thesis by (simp add: str_nat.simps [of n] digit_char_is_digit)
  qed
qed

lemma str_nat_nonempty: "str_nat n \<noteq> []"
  by (subst str_nat.simps) simp

lemma dec_val_append: "dec_val acc (xs @ ys) = dec_val (dec_val acc xs) ys"
  by (simp add: dec_val_def)

lemma dec_val_str_nat: "dec_val 0 (str_nat n) = n"
proof (induction n rule: str_nat.induct)
  case (1 n)
  show ?case
  proof (cases "n < 10")
    case True
    then show ?thesis by (simp add: str_nat.simps [of n] dec_val_def digit_char_val)
  next
    case False
    then have "dec_val 0 (str_nat (n div 10)) = n div 10" using 1 by simp
    then have "dec_val 0 (str_nat n) = 10 * (n div 10) + n mod 10"
      using False by (simp add: str_nat.simps [of n] dec_val_append) (simp add: dec_val_def digit_char_val)
    then show ?thesis by simp
  qed
qed

lemma dec_val_zeros: "dec_val 0 (replicate k (CHR ''0'') @ s) = dec_val 0 s"
  by (induction k) (simp_all add: dec_val_def)

lemma digit_val_digit: "is_digit c \<Longrightarrow> digit_val c = Some (of_char c - 48)"
  by (simp add: is_digit_def digit_val_def)

lemma is_digit_not_underscore: "is_digit c \<Longrightarrow> c \<noteq> CHR ''_''"
  by (auto simp: is_digit_def)

lemma more_digits_digits: "list_all is_digit ds \<Longrightarrow> more_digits acc ds = Some (dec_val acc ds)"
proof (induction acc ds rule: more_digits.induct)
  case (1 acc)
  then show ?case by (simp add: dec_val_def)
next
  case (2 acc c)
  then show ?case by (simp add: dec_val_def digit_val_digit)
next
  case (3 acc c d cs)
  then show ?case
    by (simp add: digit_val_digit is_digit_not_underscore) (simp add: dec_val_def)
qed

lemma nat_literal_digits:
  "list_all is_digit ds \<Longrightarrow> ds \<noteq> [] \<Longrightarrow> nat_literal ds = Some (dec_val 0 ds)"
  by (cases ds) (simp_all add: nat_literal_def digit_val_digit more_digits_digits, simp add: dec_val_def)

lemma is_digit_not_space: "is_digit c \<Longrightarrow> \<not> is_space c"
  by (auto simp: is_digit_def is_space_def)

lemma strip_digits: "list_all is_digit ds \<Longrightarrow> strip ds = ds"
proof (cases ds rule: rev_cases)
  case Nil
  then show ?thesis by (simp add: strip_def)
next
  case (snoc ys y)
  assume d: "list_all is_digit ds"
  show ?thesis
  proof (cases ds)
    case Nil
    then show ?thesis by (simp add: strip_def)
  next
    case (Cons c cs)
    with d have "\<not> is_space c" by (simp add: is_digit_not_space)
    then have 1: "dropWhile is_space ds = ds" using Cons by simp
    from d snoc have "\<not> is_space y" by (simp add: is_digit_not_space)
    then have "dropWhile is_space (rev ds) = rev ds" using snoc by simp
    with 1 show ?thesis by (simp add: strip_def)
  qed
qed

lemma py_int_digits:
  assumes "list_all is_digit ds" and "ds \<noteq> []"
  shows "py_int ds = Some (int (dec_val 0 ds))"
proof -
  from assms obtain c cs where ds: "ds = c # cs" by (cases ds) auto
  with assms have "is_digit c" by simp
  then have "c \<noteq> CHR ''+''" "c \<noteq> CHR ''-''" by (auto simp: is_digit_def)
  then show ?thesis
    using assms ds by (simp add: py_int_def strip_digits nat_literal_digits [symmetric])
qed

lemma fmt08d_digits: "list_all is_digit (fmt08d n)"
proof -
  have "is_digit (CHR ''0'')" by (simp add: is_digit_def)
  then have "list_all is_digit (replicate k (CHR ''0''))" for k
    by (induction k) simp_all
  then show ?thesis by (simp add: fmt08d_def zfill_def str_nat_digits)
qed

lemma fmt08d_nonempty: "fmt08d n \<noteq> []"
  by (simp add: fmt08d_def zfill_def str_nat_nonempty)

lemma py_int_fmt08d: "py_int (fmt08d n) = Some (int n)"
  using py_int_digits [OF fmt08d_digits fmt08d_nonempty, of n]
  by (simp add: fmt08d_def zfill_def dec_val_zeros dec_val_str_nat)

lemma is_digit_not_dot: "is_digit c \<Longrightarrow> c \<noteq> CHR ''.''"
  by (auto simp: is_digit_def)

lemma splitext_stem_png:
  assumes "list_all is_digit s" and "s \<noteq> []"
  shows "splitext_stem (s @ ''.png'') = s"
proof -
  have nodot: "\<forall>c\<in>set s. c \<noteq> CHR ''.''"
    using assms(1) by (auto simp: list_all_iff is_digit_not_dot)
  then have "dropWhile (\<lambda>c. c \<noteq> CHR ''.'') (rev s) = []" by simp
  then have 1: "rev (tl (dropWhile (\<lambda>c. c \<noteq> CHR ''.'') (rev (s @ ''.png'')))) = s"
    by simp
  have "filter (\<lambda>c. c \<noteq> CHR ''.'') s = s" using nodot by simp
  with 1 assms(2) show ?thesis by (simp add: splitext_stem_def Let_def)
qed

lemma stem_key_png_name: "stem_key (png_name n) = Some (int n)"
  by (simp add: stem_key_def png_name_def splitext_stem_png fmt08d_digits fmt08d_nonempty py_int_fmt08d)

lemma png_name_inj: "png_name i = png_name j \<Longrightarrow> i = j"
proof -
  assume "png_name i = png_name j"
  then have "stem_key (png_name i) = stem_key (png_name j)"
    by (rule arg_cong)
  then have "Some (int i) = Some (int j)"
    by (simp only: stem_key_png_name)
  then show "i = j" by simp
qed

lemma fnmatch_star_skip: "fnmatch ps ys \<Longrightarrow> fnmatch (Star # ps) (xs @ ys)"
proof (induction xs)
  case Nil
  then show ?case by (cases ys) simp_all
next
  case (Cons x xs)
  then show ?case by simp
qed

lemma glob_match_png_name: "glob_match (png_name n)"
proof -
  have "fnmatch [Lit (CHR ''.''), OneOf ''jpJP'', OneOf ''pnPN'', Star, OneOf ''gG''] ''.png''"
    by simp
  then have "fnmatch image_pattern (fmt08d n @ ''.png'')"
    unfolding image_pattern_def by (rule fnmatch_star_skip)
  moreover obtain c cs where "fmt08d n = c # cs" "is_digit c"
    using fmt08d_digits [of n] fmt08d_nonempty [of n] by (cases "fmt08d n") auto
  ultimately show ?thesis
    by (simp add: glob_match_def png_name_def is_digit_not_dot)
qed



lemma write_file_new:
  "name \<notin> set (map fst files) \<Longrightarrow> write_file name x files = files @ [(name, x)]"
  by (induction files) auto

section \<open>Properties of the effects\<close>

lemma later_refl: "later w w"
  by (simp add: later_def)

lemma later_trans: "later w1 w2 \<Longrightarrow> later w2 w3 \<Longrightarrow> later w1 w3"
  by (fastforce simp: later_def)

lemma stable_return: "stable later (io_return x)"
  by (simp add: stable_def io_return_def later_refl)

lemma stable_raise: "stable later (io_raise e)"
  by (simp add: stable_def io_raise_def later_refl)

lemma stable_bind:
  assumes "stable later m" and "\<And>x. stable later (k x)"
  shows "stable later (io_bind m k)"
  unfolding stable_def
proof
  fix w
  obtain r w1 where m: "m w = (r, w1)" by (cases "m w")
  from assms(1) m have 1: "later w w1" by (auto simp: stable_def dest: spec [of _ w])
  show "later w (snd (io_bind m k w))"
  proof (cases r)
    case (Inl e)
    with m 1 show ?thesis by (simp add: io_bind_def)
  next
    case (Inr x)
    from assms(2) [of x] have "later w1 (snd (k x w1))" by (simp add: stable_def)
    with 1 m Inr show ?thesis by (auto simp: io_bind_def intro: later_trans)
  qed
qed

lemma stable_if:
  "stable later m \<Longrightarrow> stable later n \<Longrightarrow> stable later (if b then m else n)"
  by simp

lemma stable_case_prod:
  "(\<And>a b. stable later (f a b)) \<Longrightarrow> stable later (case p of (a, b) \<Rightarrow> f a b)"
  by (cases p) simp

lemma stable_case_option:
  "stable later m \<Longrightarrow> (\<And>x. stable later (f x)) \<Longrightarrow>
   stable later (case r of None \<Rightarrow> m | Some x \<Rightarrow> f x)"
  by (cases r) simp_all

lemma stable_case_sum:
  "(\<And>e. stable later (f e)) \<Longrightarrow> (\<And>x. stable later (g x)) \<Longrightarrow>
   stable later (case r of Inl e \<Rightarrow> f e | Inr x \<Rightarrow> g x)"
  by (cases r) simp_all

lemma stable_emit: "stable later (emit e)"
  by (simp add: stable_def emit_def later_def)

lemma stable_modify_dir:
  "(\<And>d. avator_info_json (f d) = avator_info_json d) \<Longrightarrow> stable later (modify_dir f)"
  by (auto simp: stable_def modify_dir_def later_def split: option.splits)

lemma stable_imwrite_dir:
  "(\<And>d. avator_info_json (f d) = avator_info_json d) \<Longrightarrow> stable later (imwrite_dir f)"
  by (auto simp: stable_def imwrite_dir_def later_def split: option.splits)

lemma stable_read_file: "stable later (read_file f)"
  by (auto simp: stable_def read_file_def later_refl split: option.splits)

lemma stable_glob_images: "stable later (glob_images f)"
  by (auto simp: stable_def glob_images_def later_refl split: option.splits)

lemmas stable_intros =
  stable_return stable_raise stable_bind stable_if stable_case_prod stable_case_option
  stable_case_sum stable_emit stable_modify_dir stable_imwrite_dir stable_read_file
  stable_glob_images

lemma stable_call: "stable later (call e r)"
  unfolding call_def by (intro stable_intros)

lemma stable_imwrite_full: "stable later (imwrite_full name frame)"
  unfolding imwrite_full_def by (intro stable_intros) simp

lemma stable_imwrite_mask: "stable later (imwrite_mask name m)"
  unfolding imwrite_mask_def by (intro stable_intros) simp

lemma stable_video2imgs_loop: "stable later (video2imgs_loop cap cut_frame count)"
proof (induction cap arbitrary: count)
  case Nil
  show ?case by (simp add: stable_return)
next
  case (Cons frame cap)
  show ?case
    unfolding video2imgs_loop.simps
    by (intro stable_intros stable_imwrite_full Cons)
qed

lemma stable_copy_loop: "stable later (copy_loop files)"
proof (induction files)
  case Nil
  show ?case by (simp add: stable_return)
next
  case (Cons entry files)
  obtain filename content where "entry = (filename, content)" by (cases entry)
  with Cons show ?case
    by (auto intro!: stable_intros)
qed

lemma stable_materialize_frames: "stable later materialize_frames"
  unfolding stable_def
proof
  fix w
  show "later w (snd (materialize_frames w))"
  proof (cases "video_src w")
    case (VideoFile cap)
    then show ?thesis
      using stable_video2imgs_loop [of cap 10000000 0]
      by (simp add: materialize_frames_def video2imgs_def stable_def)
  next
    case (ImageDir files)
    then show ?thesis
      using stable_copy_loop
      by (simp add: materialize_frames_def stable_def)
  next
    case NoSource
    then show ?thesis by (simp add: materialize_frames_def later_refl)
  qed
qed

lemma stable_latents_loop: "stable later (latents_loop col zs acc)"
proof (induction zs arbitrary: acc)
  case Nil
  show ?case by (simp add: stable_return)
next
  case (Cons z zs)
  obtain box frame where "z = (box, frame)" by (cases z)
  with Cons show ?case
    by (auto intro!: stable_intros stable_call)
qed

lemma stable_masks_loop: "stable later (masks_loop col coords xs mcs ms)"
proof (induction xs arbitrary: mcs ms)
  case Nil
  show ?case by (simp add: stable_return)
next
  case (Cons x xs)
  obtain i frame where "x = (i, frame)" by (cases x)
  with Cons show ?case
    by (auto intro!: stable_intros stable_call stable_imwrite_full stable_imwrite_mask)
qed

lemma emit_result: "emit e w = (Inr (), w\<lparr>events := events w @ [e]\<rparr>)"
  by (simp add: emit_def)

section \<open>Properties of the preparation\<close>

lemma io_bind_Inr:
  "io_bind m k w = (Inr x, w') \<longleftrightarrow> (\<exists>y w1. m w = (Inr y, w1) \<and> k y w1 = (Inr x, w'))"
  by (auto simp: io_bind_def split: prod.splits sum.splits)

lemma io_return_Inr: "io_return x w = (Inr y, w') \<longleftrightarrow> y = x \<and> w' = w"
  by (auto simp: io_return_def)

lemma io_raise_Inr: "io_raise e w \<noteq> (Inr y, w')"
  by (simp add: io_raise_def)

lemma call_Inr: "call ev r w = (Inr x, w') \<Longrightarrow> r = Some x"
  by (auto simp: call_def io_bind_def emit_def io_raise_def io_return_def split: option.splits)

lemma latents_loop_length:
  "latents_loop col zs acc w = (Inr r, w') \<Longrightarrow>
   length r = length acc + length (filter (\<lambda>(box, frame). box \<noteq> coord_placeholder) zs)"
proof (induction zs arbitrary: acc w)
  case Nil
  then show ?case by (simp add: io_return_def)
next
  case (Cons z zs)
  obtain box frame where z: "z = (box, frame)" by (cases z)
  show ?case
  proof (cases "box = coord_placeholder")
    case True
    with Cons z show ?thesis by simp
  next
    case False
    with Cons.prems z obtain l w1 where
      "latents_loop col zs (acc @ [l]) w1 = (Inr r, w')"
      by (auto simp: io_bind_Inr io_raise_Inr split: option.splits)
    from Cons.IH [OF this] False z show ?thesis by simp
  qed
qed

lemma masks_loop_length:
  "masks_loop col coords xs mcs ms w = (Inr (mcs', ms'), w') \<Longrightarrow>
   length mcs' = length mcs + length xs \<and> length ms' = length ms + length xs
   \<and> (\<forall>(i, frame) \<in> set xs. i < length coords)"
proof (induction xs arbitrary: mcs ms w)
  case Nil
  then show ?case by (simp add: io_return_def)
next
  case (Cons x xs)
  obtain i frame where x: "x = (i, frame)" by (cases x)
  from Cons.prems x obtain m crop_box w1 where
    i: "i < length coords" and
    rest: "masks_loop col coords xs (mcs @ [crop_box]) (ms @ [m]) w1 = (Inr (mcs', ms'), w')"
    by (auto simp: io_bind_Inr io_raise_Inr split: if_splits)
  from Cons.IH [OF rest] i x show ?case by simp
qed

lemma prepare_material_steps:
  assumes "prepare_material col self w = (Inr cy, w')"
  shows "\<exists>w1 w2 found w3 coord_list frame_list w4 input_latent_list w5 mask_coords masks
            w6 w7 w8 w9 w10 w11.
           write_manifest (avatar_info_of self) w = (Inr (), w1)
         \<and> materialize_frames w1 = (Inr (), w2)
         \<and> glob_images full_imgs w2 = (Inr found, w3)
         \<and> call LandmarkAndBbox
               (get_landmark_and_bbox col (map snd (sort_key fst found)) (bbox_shift self)) w3
             = (Inr (coord_list, frame_list), w4)
         \<and> latents_loop col (zip coord_list frame_list) [] w4 = (Inr input_latent_list, w5)
         \<and> masks_loop col (coord_list @ rev coord_list)
               (enumerate 0 (frame_list @ rev frame_list)) [] [] w5
             = (Inr (mask_coords, masks), w6)
         \<and> emit DumpMaskCoords w6 = (Inr (), w7)
         \<and> modify_dir (\<lambda>d. d\<lparr>mask_coords_pkl := Some mask_coords\<rparr>) w7 = (Inr (), w8)
         \<and> emit DumpCoords w8 = (Inr (), w9)
         \<and> modify_dir (\<lambda>d. d\<lparr>coords_pkl := Some (coord_list @ rev coord_list)\<rparr>) w9 = (Inr (), w10)
         \<and> emit SaveLatents w10 = (Inr (), w11)
         \<and> modify_dir (\<lambda>d. d\<lparr>latents_pt := Some (input_latent_list @ rev input_latent_list)\<rparr>) w11
             = (Inr (), w')
         \<and> cy = \<lparr>frame_list_cycle = frame_list @ rev frame_list,
                  coord_list_cycle = coord_list @ rev coord_list,
                  input_latent_list_cycle = input_latent_list @ rev input_latent_list,
                  mask_coords_list_cycle = mask_coords, mask_list_cycle = masks\<rparr>"
  using assms unfolding prepare_material_def Let_def
  by (simp add: io_bind_Inr io_return_Inr split: prod.splits)

lemma prepare_material_InrD:
  assumes "prepare_material col self w = (Inr cy, w')"
  shows "\<exists>imgs coord_list frame_list input_latent_list.
           get_landmark_and_bbox col imgs (bbox_shift self) = Some (coord_list, frame_list)
         \<and> frame_list_cycle cy = frame_list @ rev frame_list
         \<and> coord_list_cycle cy = coord_list @ rev coord_list
         \<and> input_latent_list_cycle cy = input_latent_list @ rev input_latent_list
         \<and> length input_latent_list =
             length (filter (\<lambda>(box, frame). box \<noteq> coord_placeholder) (zip coord_list frame_list))
         \<and> length (mask_coords_list_cycle cy) = 2 * length frame_list
         \<and> length (mask_list_cycle cy) = 2 * length frame_list
         \<and> length frame_list \<le> length coord_list"
proof -
  from prepare_material_steps [OF assms]
  obtain found :: "image dir" and coord_list frame_list input_latent_list mask_coords masks
    w3 w4 w5 w6 where
    lm: "call LandmarkAndBbox
           (get_landmark_and_bbox col (map snd (sort_key fst found)) (bbox_shift self)) w3
         = (Inr (coord_list, frame_list), w4)"
    and ll: "latents_loop col (zip coord_list frame_list) [] w4 = (Inr input_latent_list, w5)"
    and ml: "masks_loop col (coord_list @ rev coord_list)
               (enumerate 0 (frame_list @ rev frame_list)) [] [] w5 = (Inr (mask_coords, masks), w6)"
    and cy: "cy = \<lparr>frame_list_cycle = frame_list @ rev frame_list,
                  coord_list_cycle = coord_list @ rev coord_list,
                  input_latent_list_cycle = input_latent_list @ rev input_latent_list,
                  mask_coords_list_cycle = mask_coords, mask_list_cycle = masks\<rparr>"
    by blast
  from masks_loop_length [OF ml] have
    m: "length mask_coords = 2 * length frame_list" "length masks = 2 * length frame_list"
    and b: "\<forall>(i, frame) \<in> set (enumerate 0 (frame_list @ rev frame_list)).
              i < length (coord_list @ rev coord_list)"
    by simp_all
  have "length frame_list \<le> length coord_list"
  proof (cases "frame_list = []")
    case True
    then show ?thesis by simp
  next
    case False
    let ?k = "2 * length frame_list - 1"
    have "(?k, (frame_list @ rev frame_list) ! ?k) \<in> set (enumerate 0 (frame_list @ rev frame_list))"
    proof -
      have "0 < length frame_list" using False by simp
      then have "?k < length frame_list + length frame_list" by linarith
      then show ?thesis by (simp add: in_set_enumerate_eq)
    qed
    with b have "?k < 2 * length coord_list" by auto
    then show ?thesis by linarith
  qed
  with call_Inr [OF lm] latents_loop_length [OF ll] m cy show ?thesis
    by (intro exI [of _ "map snd (sort_key fst found)"] exI [of _ coord_list]
              exI [of _ frame_list] exI [of _ input_latent_list]) simp
qed


lemma mirror_nth:
  assumes "i < length (xs @ rev xs)"
  shows "(xs @ rev xs) ! i = (xs @ rev xs) ! (length (xs @ rev xs) - 1 - i)"
proof -
  have "rev (xs @ rev xs) ! i = (xs @ rev xs) ! (length (xs @ rev xs) - Suc i)"
    using assms by (rule rev_nth)
  then show ?thesis by simp
qed

lemma mirror_halves:
  "drop (length (xs @ rev xs) div 2) (xs @ rev xs)
     = rev (take (length (xs @ rev xs) div 2) (xs @ rev xs))"
  by simp

lemma write_manifest_result:
  "write_manifest info w =
     (case avatar_path w of
        None \<Rightarrow> (Inl FileNotFoundError, w\<lparr>events := events w @ [WriteManifest info]\<rparr>)
      | Some d \<Rightarrow>
          (Inr (), w\<lparr>events := events w @ [WriteManifest info],
                     avatar_path := Some (d\<lparr>avator_info_json := Some info\<rparr>)\<rparr>))"
  by (simp add: write_manifest_def io_bind_def emit_def modify_dir_def split: option.splits)

lemma manifest_first:
  assumes "\<And>x. stable later (k x)"
  shows "(\<exists>es. events (snd (io_bind (write_manifest info) k w))
                 = events w @ WriteManifest info # es)
       \<and> (avatar_path w \<noteq> None \<longrightarrow>
            (\<exists>d'. avatar_path (snd (io_bind (write_manifest info) k w)) = Some d'
                 \<and> avator_info_json d' = Some info))"
proof (cases "avatar_path w")
  case None
  then show ?thesis by (simp add: io_bind_def write_manifest_result)
next
  case (Some d)
  let ?w1 = "w\<lparr>events := events w @ [WriteManifest info],
               avatar_path := Some (d\<lparr>avator_info_json := Some info\<rparr>)\<rparr>"
  have run: "io_bind (write_manifest info) k w = k () ?w1"
    using Some by (simp add: io_bind_def write_manifest_result)
  from assms [of "()"] have "later ?w1 (snd (k () ?w1))"
    by (simp add: stable_def)
  then show ?thesis
    unfolding run by (auto simp: later_def Some)
qed

lemma prepare_material_manifest_first:
  "(\<exists>es. events (snd (prepare_material col self w))
            = events w @ WriteManifest (avatar_info_of self) # es)
   \<and> (avatar_path w \<noteq> None \<longrightarrow>
        (\<exists>d'. avatar_path (snd (prepare_material col self w)) = Some d'
             \<and> avator_info_json d' = Some (avatar_info_of self)))"
  unfolding prepare_material_def Let_def
  by (rule manifest_first)
     (intro stable_intros stable_materialize_frames stable_call stable_latents_loop
            stable_masks_loop; simp)

lemma imwrite_full_result:
  "imwrite_full name frame w =
     (Inr (), w\<lparr>events := events w @ [WriteFullImg name],
                avatar_path :=
                  map_option (\<lambda>d. d\<lparr>full_imgs := write_file name frame (full_imgs d)\<rparr>)
                    (avatar_path w)\<rparr>)"
  by (simp add: imwrite_full_def io_bind_def emit_def imwrite_dir_def split: option.splits)





lemma returns_return: "(\<And>w. P w \<Longrightarrow> Q x w) \<Longrightarrow> returns P (io_return x) Q"
  by (simp add: returns_def io_return_def)

lemma returns_bind:
  assumes "returns P m Q" and "\<And>x. returns (Q x) (k x) R"
  shows "returns P (io_bind m k) R"
  unfolding returns_def
proof (intro allI impI)
  fix w
  assume "P w"
  with assms(1) obtain x w1 where m: "m w = (Inr x, w1)" and q: "Q x w1"
    by (auto simp: returns_def)
  from assms(2) [of x] q obtain y w2 where "k x w1 = (Inr y, w2)" "R y w2"
    by (auto simp: returns_def)
  with m show "\<exists>y w'. io_bind m k w = (Inr y, w') \<and> R y w'"
    by (simp add: io_bind_def)
qed

lemma returns_weaken:
  "returns P m Q \<Longrightarrow> (\<And>w. P' w \<Longrightarrow> P w) \<Longrightarrow> (\<And>x w. Q x w \<Longrightarrow> Q' x w) \<Longrightarrow>
   returns P' m Q'"
  by (fastforce simp: returns_def)

lemma names_write_file:
  "set (map fst (write_file name x files)) = insert name (set (map fst files))"
proof (induction files)
  case Nil
  show ?case by simp
next
  case (Cons p files)
  obtain n y where p: "p = (n, y)" by (cases p)
  show ?case
  proof (cases "n = name")
    case True
    with p show ?thesis by simp
  next
    case False
    with p Cons show ?thesis by (simp add: insert_commute)
  qed
qed

lemma numbered_write_file:
  "numbered files \<Longrightarrow> numbered (write_file (png_name i) x files)"
  unfolding numbered_def names_write_file by simp

lemma returns_emit: "returns numbered_dirs (emit e) (\<lambda>_. numbered_dirs)"
  by (simp add: returns_def emit_result numbered_dirs_def)

lemma returns_imwrite_full:
  "returns numbered_dirs (imwrite_full (png_name i) frame) (\<lambda>_. numbered_dirs)"
  by (auto simp: returns_def imwrite_full_result numbered_dirs_def numbered_write_file)

lemma returns_imwrite_mask:
  "returns numbered_dirs (imwrite_mask (png_name i) m) (\<lambda>_. numbered_dirs)"
  by (auto simp: returns_def imwrite_mask_def io_bind_def emit_result imwrite_dir_def
                 numbered_dirs_def numbered_write_file)

lemma returns_glob_images: "returns numbered_dirs (glob_images f) (\<lambda>_. numbered_dirs)"
  by (auto simp: returns_def glob_images_def numbered_dirs_def)

lemma returns_call:
  "r = Some x \<Longrightarrow> returns numbered_dirs (call e r) (\<lambda>y w. y = x \<and> numbered_dirs w)"
  by (simp add: returns_def call_def io_bind_def emit_result io_return_def numbered_dirs_def)

lemma returns_modify_dir:
  assumes "\<And>d. full_imgs (f d) = full_imgs d" and "\<And>d. mask_dir (f d) = mask_dir d"
  shows "returns numbered_dirs (modify_dir f) (\<lambda>_. numbered_dirs)"
  using assms by (auto simp: returns_def modify_dir_def numbered_dirs_def)

lemma returns_video2imgs_loop:
  "returns numbered_dirs (video2imgs_loop cap cut_frame count) (\<lambda>_. numbered_dirs)"
proof (induction cap arbitrary: count)
  case Nil
  show ?case by (simp add: returns_return)
next
  case (Cons frame cap)
  show ?case
  proof (cases "count > cut_frame")
    case True
    then show ?thesis by (simp add: returns_return)
  next
    case False
    then show ?thesis
      by (simp add: returns_bind [OF returns_imwrite_full Cons])
  qed
qed

lemma returns_write_manifest:
  "returns numbered_dirs (write_manifest info) (\<lambda>_. numbered_dirs)"
  by (auto simp: returns_def write_manifest_result numbered_dirs_def)

lemma returns_materialize_frames:
  "returns (\<lambda>w. numbered_dirs w \<and> (\<exists>cap. video_src w = VideoFile cap)) materialize_frames
     (\<lambda>_. numbered_dirs)"
  unfolding returns_def
proof (intro allI impI)
  fix w
  assume "numbered_dirs w \<and> (\<exists>cap. video_src w = VideoFile cap)"
  then obtain cap where n: "numbered_dirs w" and v: "video_src w = VideoFile cap"
    by blast
  from returns_video2imgs_loop [of cap 10000000 0] n
  show "\<exists>x w'. materialize_frames w = (Inr x, w') \<and> numbered_dirs w'"
    by (simp add: returns_def materialize_frames_def v video2imgs_def)
qed

lemma returns_latents_loop:
  assumes "\<And>img box. resize_crop col img box \<noteq> None"
    and "\<And>img. get_latents_for_unet col img \<noteq> None"
  shows "returns numbered_dirs (latents_loop col zs acc) (\<lambda>_. numbered_dirs)"
proof (induction zs arbitrary: acc)
  case Nil
  show ?case by (simp add: returns_return)
next
  case (Cons z zs)
  obtain box frame where z: "z = (box, frame)" by (cases z)
  show ?case
  proof (cases "box = coord_placeholder")
    case True
    with Cons z show ?thesis by simp
  next
    case False
    from assms(1) [of frame box] obtain resized where r: "resize_crop col frame box = Some resized"
      by blast
    from assms(2) [of resized] obtain l where l: "get_latents_for_unet col resized = Some l"
      by blast
    have "returns numbered_dirs
            (io_bind (call GetLatents (get_latents_for_unet col resized))
               (\<lambda>latents. latents_loop col zs (acc @ [latents]))) (\<lambda>_. numbered_dirs)"
      by (rule returns_bind [OF returns_call [OF l]])
         (rule returns_weaken [OF Cons], simp_all)
    with False z r show ?thesis by simp
  qed
qed

lemma returns_masks_loop:
  assumes "\<And>img box. get_image_prepare_material col img box \<noteq> None"
  shows "\<forall>(i, frame) \<in> set xs. i < length coords \<Longrightarrow>
         returns numbered_dirs (masks_loop col coords xs mcs ms) (\<lambda>_. numbered_dirs)"
proof (induction xs arbitrary: mcs ms)
  case Nil
  show ?case by (simp add: returns_return)
next
  case (Cons x xs)
  obtain i frame where x: "x = (i, frame)" by (cases x)
  with Cons.prems have i: "i < length coords"
    and rest: "\<forall>(i, frame) \<in> set xs. i < length coords"
    by auto
  from assms [of frame "coords ! i"] obtain m crop_box where
    p: "get_image_prepare_material col frame (coords ! i) = Some (m, crop_box)"
    by auto
  have "returns numbered_dirs
          (io_bind (imwrite_full (png_name i) frame) (\<lambda>_.
           io_bind (call PrepareMaterial (get_image_prepare_material col frame (coords ! i)))
             (\<lambda>(m, crop_box).
           io_bind (imwrite_mask (png_name i) m) (\<lambda>_.
           masks_loop col coords xs (mcs @ [crop_box]) (ms @ [m])))))
          (\<lambda>_. numbered_dirs)"
    apply (rule returns_bind [OF returns_imwrite_full])
    apply (rule returns_bind [OF returns_call [OF p]])
    apply (rule returns_weaken [where P = numbered_dirs and Q = "\<lambda>_. numbered_dirs"])
      apply (simp add: split_def)
      apply (rule returns_bind [OF returns_imwrite_mask])
      apply (rule Cons.IH [OF rest])
     apply simp_all
    done
  with i x show ?case by simp
qed

lemma returns_case_prod:
  "(\<And>a b. returns (Q (a, b)) (f a b) R) \<Longrightarrow> returns (Q p) (case p of (a, b) \<Rightarrow> f a b) R"
  by (cases p) simp

lemma returns_assume: "(A \<Longrightarrow> returns P m Q) \<Longrightarrow> returns (\<lambda>w. A \<and> P w) m Q"
  by (auto simp: returns_def)

lemma returns_build:
  assumes crop: "\<And>img box. resize_crop col img box \<noteq> None"
    and vae: "\<And>img. get_latents_for_unet col img \<noteq> None"
    and parse: "\<And>img box. get_image_prepare_material col img box \<noteq> None"
    and len: "length coord_list = length frame_list"
  shows "returns numbered_dirs
     (io_bind (latents_loop col (zip coord_list frame_list) []) (\<lambda>input_latent_list.
     (let frames = frame_list @ rev frame_list;
          coords = coord_list @ rev coord_list;
          latents = input_latent_list @ rev input_latent_list in
     io_bind (masks_loop col coords (enumerate 0 frames) [] []) (\<lambda>(mask_coords, masks).
     io_bind (emit DumpMaskCoords) (\<lambda>_.
     io_bind (modify_dir (\<lambda>d. d\<lparr>mask_coords_pkl := Some mask_coords\<rparr>)) (\<lambda>_.
     io_bind (emit DumpCoords) (\<lambda>_.
     io_bind (modify_dir (\<lambda>d. d\<lparr>coords_pkl := Some coords\<rparr>)) (\<lambda>_.
     io_bind (emit SaveLatents) (\<lambda>_.
     io_bind (modify_dir (\<lambda>d. d\<lparr>latents_pt := Some latents\<rparr>)) (\<lambda>_.
     io_return
       \<lparr>frame_list_cycle = frames, coord_list_cycle = coords,
        input_latent_list_cycle = latents, mask_coords_list_cycle = mask_coords,
        mask_list_cycle = masks\<rparr>))))))))))
     (\<lambda>_. numbered_dirs)"
proof -
  have bound: "\<forall>(i, frame) \<in> set (enumerate 0 (frame_list @ rev frame_list)).
                 i < length (coord_list @ rev coord_list)"
    using len by (auto simp: in_set_enumerate_eq)
  show ?thesis
    unfolding Let_def
    apply (rule returns_bind [OF returns_latents_loop [OF crop vae]])
    apply (rule returns_bind [OF returns_masks_loop [OF parse bound]])
    apply (rule returns_case_prod)
    apply (rule returns_bind [OF returns_emit])
    apply (rule returns_bind [OF returns_modify_dir], simp, simp)
    apply (rule returns_bind [OF returns_emit])
    apply (rule returns_bind [OF returns_modify_dir], simp, simp)
    apply (rule returns_bind [OF returns_emit])
    apply (rule returns_bind [OF returns_modify_dir], simp, simp)
    apply (rule returns_return)
    apply assumption
    done
qed

lemma returns_prepare_material:
  assumes landmark: "\<And>imgs. \<exists>coords frames.
        get_landmark_and_bbox col imgs (bbox_shift self) = Some (coords, frames)
      \<and> length coords = length frames"
    and crop: "\<And>img box. resize_crop col img box \<noteq> None"
    and vae: "\<And>img. get_latents_for_unet col img \<noteq> None"
    and parse: "\<And>img box. get_image_prepare_material col img box \<noteq> None"
  shows "returns (\<lambda>w. numbered_dirs w \<and> (\<exists>cap. video_src w = VideoFile cap))
           (prepare_material col self) (\<lambda>_. numbered_dirs)"
proof -
  have manifest: "returns (\<lambda>w. numbered_dirs w \<and> (\<exists>cap. video_src w = VideoFile cap))
           (write_manifest (avatar_info_of self))
           (\<lambda>_ w. numbered_dirs w \<and> (\<exists>cap. video_src w = VideoFile cap))"
    by (auto simp: returns_def write_manifest_result numbered_dirs_def)
  have call: "returns numbered_dirs
           (call LandmarkAndBbox (get_landmark_and_bbox col imgs (bbox_shift self)))
           (\<lambda>p w. length (fst p) = length (snd p) \<and> numbered_dirs w)" for imgs
  proof -
    from landmark [of imgs] obtain coords frames where
      r: "get_landmark_and_bbox col imgs (bbox_shift self) = Some (coords, frames)"
      and l: "length coords = length frames"
      by blast
    show ?thesis
      by (rule returns_weaken [OF returns_call [OF r]]) (simp_all add: l)
  qed
  show ?thesis
    unfolding prepare_material_def
    apply (rule returns_bind [OF manifest])
    apply (rule returns_bind [OF returns_materialize_frames])
    apply (rule returns_bind [OF returns_glob_images])
    apply (unfold Let_def)
    apply (rule returns_bind [OF call])
    apply (rule returns_case_prod)
    apply (simp only: fst_conv snd_conv)
    apply (rule returns_assume)
    apply (rule returns_build [OF crop vae parse, unfolded Let_def])
    apply assumption
    done
qed

lemma sample_prepare_fst:
  "fst (prepare_material sample_collab sample_avatar
          (sample_world\<lparr>avatar_path := Some empty_dir\<rparr>)) = Inr sample_prepared"
  by code_simp

lemma sample_prepare_run:
  "prepare_material sample_collab sample_avatar (sample_world\<lparr>avatar_path := Some empty_dir\<rparr>)
     = (Inr sample_prepared,
        snd (prepare_material sample_collab sample_avatar
               (sample_world\<lparr>avatar_path := Some empty_dir\<rparr>)))"
  using sample_prepare_fst by (simp add: prod_eq_iff)

subsection \<open>The cyclic lists\<close>

text \<open>
  Claim C7. In each of the cyclic lists of frames, boxes and latent codes that
  \<open>prepare_material\<close> builds, the element at position \<open>i\<close> is the element at position
  \<open>L - 1 - i\<close>, for every \<open>i\<close> below the length \<open>L\<close> of the list, and the second half of the
  list is the first half reversed.
\<close>

theorem cycles_mirror:
  assumes "prepare_material col self w = (Inr cy, w')"
  shows "(\<forall>i < length (frame_list_cycle cy).
            frame_list_cycle cy ! i
              = frame_list_cycle cy ! (length (frame_list_cycle cy) - 1 - i))
       \<and> (\<forall>i < length (coord_list_cycle cy).
            coord_list_cycle cy ! i
              = coord_list_cycle cy ! (length (coord_list_cycle cy) - 1 - i))
       \<and> (\<forall>i < length (input_latent_list_cycle cy).
            input_latent_list_cycle cy ! i
              = input_latent_list_cycle cy ! (length (input_latent_list_cycle cy) - 1 - i))
       \<and> drop (length (frame_list_cycle cy) div 2) (frame_list_cycle cy)
            = rev (take (length (frame_list_cycle cy) div 2) (frame_list_cycle cy))
       \<and> drop (length (coord_list_cycle cy) div 2) (coord_list_cycle cy)
            = rev (take (length (coord_list_cycle cy) div 2) (coord_list_cycle cy))
       \<and> drop (length (input_latent_list_cycle cy) div 2) (input_latent_list_cycle cy)
            = rev (take (length (input_latent_list_cycle cy) div 2) (input_latent_list_cycle cy))"
proof -
  from prepare_material_InrD [OF assms] obtain coord_list frame_list input_latent_list where
    eq: "frame_list_cycle cy = frame_list @ rev frame_list"
        "coord_list_cycle cy = coord_list @ rev coord_list"
        "input_latent_list_cycle cy = input_latent_list @ rev input_latent_list"
    by blast
  show ?thesis
    unfolding eq
    by (intro conjI allI impI mirror_nth mirror_halves)
qed

theorem cycles_mirror_witness:
  "fst (prepare_material sample_collab sample_avatar
          (sample_world\<lparr>avatar_path := Some empty_dir\<rparr>)) = Inr sample_prepared
   \<and> (1::nat) < length (frame_list_cycle sample_prepared)
   \<and> frame_list_cycle sample_prepared ! 1
       = frame_list_cycle sample_prepared ! (length (frame_list_cycle sample_prepared) - 1 - 1)
   \<and> (1::nat) < length (coord_list_cycle sample_prepared)
   \<and> coord_list_cycle sample_prepared ! 1
       = coord_list_cycle sample_prepared ! (length (coord_list_cycle sample_prepared) - 1 - 1)
   \<and> (1::nat) < length (input_latent_list_cycle sample_prepared)
   \<and> input_latent_list_cycle sample_prepared ! 1
       = input_latent_list_cycle sample_prepared
           ! (length (input_latent_list_cycle sample_prepared) - 1 - 1)
   \<and> drop 3 (frame_list_cycle sample_prepared) = rev (take 3 (frame_list_cycle sample_prepared))"
proof -
  have len: "(1::nat) < length (frame_list_cycle sample_prepared)"
            "(1::nat) < length (coord_list_cycle sample_prepared)"
            "(1::nat) < length (input_latent_list_cycle sample_prepared)"
    by (simp_all add: sample_prepared_def)
  have half: "length (frame_list_cycle sample_prepared) div 2 = 3"
    by (simp add: sample_prepared_def)
  note m = cycles_mirror [OF sample_prepare_run]
  note m1 = m [THEN conjunct1, rule_format, OF len(1)]
  note m2 = m [THEN conjunct2, THEN conjunct1, rule_format, OF len(2)]
  note m3 = m [THEN conjunct2, THEN conjunct2, THEN conjunct1, rule_format, OF len(3)]
  note m4 = m [THEN conjunct2, THEN conjunct2, THEN conjunct2, THEN conjunct1, unfolded half]
  show ?thesis
    by (intro conjI) (fact sample_prepare_fst len m1 m2 m3 m4)+
qed

text \<open>
  The claim C3 says that the five cyclic lists have the same length, twice the number
  of frames with a face, and that a frame with the placeholder box is in none of
  them. The sample video has three frames, the last without a face: the lists of
  frames, boxes, masks and mask boxes have six elements and hold the frame without a
  face and its placeholder box, and only the list of latent codes has four.
\<close>

theorem sentinel_frames_stay_in_cycles:
  "get_landmark_and_bbox sample_collab [Image 1, Image 2, Image 0] 5
     = Some ([(1, 1, 10, 10), (1, 1, 10, 10), coord_placeholder], [Image 1, Image 2, Image 0])
   \<and> fst (prepare_material sample_collab sample_avatar
            (sample_world\<lparr>avatar_path := Some empty_dir\<rparr>))
     = Inr \<lparr>frame_list_cycle = [Image 1, Image 2, Image 0, Image 0, Image 2, Image 1],
            coord_list_cycle =
              [(1, 1, 10, 10), (1, 1, 10, 10), (0, 0, 0, 0),
               (0, 0, 0, 0), (1, 1, 10, 10), (1, 1, 10, 10)],
            input_latent_list_cycle = [Latent 1, Latent 2, Latent 2, Latent 1],
            mask_coords_list_cycle =
              [(1, 1, 10, 10), (1, 1, 10, 10), (0, 0, 0, 0),
               (0, 0, 0, 0), (1, 1, 10, 10), (1, 1, 10, 10)],
            mask_list_cycle = [Image 1, Image 2, Image 0, Image 0, Image 2, Image 1]\<rparr>"
  by code_simp

text \<open>
  Claim C3, amended. After \<open>prepare_material\<close>, with the boxes and frames that the
  landmark collaborator returned: the list of latent codes has twice as many elements
  as there are frames with a box other than the placeholder; the lists of frames, masks
  and mask boxes have twice as many elements as there are frames, the frames with the
  placeholder box included; the list of boxes has twice as many elements as there are
  boxes, which are at least as many as the frames. When there is one box per frame and
  none is the placeholder, the five lists have the same length.
\<close>

theorem cycle_lengths:
  assumes "prepare_material col self w = (Inr cy, w')"
  shows "\<exists>imgs coord_list frame_list.
           get_landmark_and_bbox col imgs (bbox_shift self) = Some (coord_list, frame_list)
         \<and> frame_list_cycle cy = frame_list @ rev frame_list
         \<and> coord_list_cycle cy = coord_list @ rev coord_list
         \<and> length (input_latent_list_cycle cy)
             = 2 * length (filter (\<lambda>(box, frame). box \<noteq> coord_placeholder)
                             (zip coord_list frame_list))
         \<and> length (frame_list_cycle cy) = 2 * length frame_list
         \<and> length (coord_list_cycle cy) = 2 * length coord_list
         \<and> length (mask_list_cycle cy) = 2 * length frame_list
         \<and> length (mask_coords_list_cycle cy) = 2 * length frame_list
         \<and> length frame_list \<le> length coord_list
         \<and> (length coord_list = length frame_list \<and> coord_placeholder \<notin> set coord_list
              \<longrightarrow> length (input_latent_list_cycle cy) = 2 * length frame_list
                \<and> length (coord_list_cycle cy) = 2 * length frame_list)"
proof -
  from prepare_material_InrD [OF assms] obtain imgs coord_list frame_list input_latent_list where
    d: "get_landmark_and_bbox col imgs (bbox_shift self) = Some (coord_list, frame_list)"
       "frame_list_cycle cy = frame_list @ rev frame_list"
       "coord_list_cycle cy = coord_list @ rev coord_list"
       "input_latent_list_cycle cy = input_latent_list @ rev input_latent_list"
       "length input_latent_list =
          length (filter (\<lambda>(box, frame). box \<noteq> coord_placeholder) (zip coord_list frame_list))"
       "length (mask_coords_list_cycle cy) = 2 * length frame_list"
       "length (mask_list_cycle cy) = 2 * length frame_list"
       "length frame_list \<le> length coord_list"
    by blast
  have lat: "length (input_latent_list_cycle cy)
          = 2 * length (filter (\<lambda>(box, frame). box \<noteq> coord_placeholder)
                          (zip coord_list frame_list))"
    by (simp add: d(4,5))
  have fr: "length (frame_list_cycle cy) = 2 * length frame_list"
    by (simp add: d(2))
  have co: "length (coord_list_cycle cy) = 2 * length coord_list"
    by (simp add: d(3))
  have valid: "length (input_latent_list_cycle cy) = 2 * length frame_list
             \<and> length (coord_list_cycle cy) = 2 * length frame_list"
    if "length coord_list = length frame_list \<and> coord_placeholder \<notin> set coord_list"
  proof -
    have "\<forall>p \<in> set (zip coord_list frame_list). fst p \<noteq> coord_placeholder"
      using that by (auto dest: set_zip_leftD)
    then have "filter (\<lambda>(box, frame). box \<noteq> coord_placeholder) (zip coord_list frame_list)
          = zip coord_list frame_list"
      by (simp add: filter_id_conv case_prod_unfold)
    then show ?thesis using that lat co by simp
  qed
  from valid have v:
    "length coord_list = length frame_list \<and> coord_placeholder \<notin> set coord_list
       \<longrightarrow> length (input_latent_list_cycle cy) = 2 * length frame_list
         \<and> length (coord_list_cycle cy) = 2 * length frame_list"
    by (rule impI)
  show ?thesis
    by (intro exI [of _ imgs] exI [of _ coord_list] exI [of _ frame_list] conjI)
       (fact d lat fr co v)+
qed

theorem cycle_lengths_witness:
  "fst (prepare_material sample_collab sample_avatar
          (sample_world\<lparr>avatar_path := Some empty_dir\<rparr>)) = Inr sample_prepared
   \<and> (\<exists>imgs coord_list frame_list.
         get_landmark_and_bbox sample_collab imgs (bbox_shift sample_avatar)
           = Some (coord_list, frame_list)
       \<and> frame_list = [Image 1, Image 2, Image 0]
       \<and> length (input_latent_list_cycle sample_prepared)
           = 2 * length (filter (\<lambda>(box, frame). box \<noteq> coord_placeholder)
                           (zip coord_list frame_list))
       \<and> length (frame_list_cycle sample_prepared) = 2 * length frame_list)
   \<and> length (input_latent_list_cycle sample_prepared) = 4
   \<and> length (frame_list_cycle sample_prepared) = 6"
proof -
  from cycle_lengths [OF sample_prepare_run] obtain imgs coord_list frame_list where
    a: "get_landmark_and_bbox sample_collab imgs (bbox_shift sample_avatar)
          = Some (coord_list, frame_list)"
    and b: "frame_list_cycle sample_prepared = frame_list @ rev frame_list"
    and c: "length (input_latent_list_cycle sample_prepared)
           = 2 * length (filter (\<lambda>(box, frame). box \<noteq> coord_placeholder)
                           (zip coord_list frame_list))"
    and d: "length (frame_list_cycle sample_prepared) = 2 * length frame_list"
    by blast
  from d have l3: "length frame_list = 3" by (simp add: sample_prepared_def)
  have "take 3 (frame_list_cycle sample_prepared) = take 3 (frame_list @ rev frame_list)"
    by (simp only: b)
  also have "\<dots> = frame_list" using l3 by simp
  finally have fl: "frame_list = [Image 1, Image 2, Image 0]"
    by (simp add: sample_prepared_def)
  have e: "\<exists>imgs coord_list frame_list.
         get_landmark_and_bbox sample_collab imgs (bbox_shift sample_avatar)
           = Some (coord_list, frame_list)
       \<and> frame_list = [Image 1, Image 2, Image 0]
       \<and> length (input_latent_list_cycle sample_prepared)
           = 2 * length (filter (\<lambda>(box, frame). box \<noteq> coord_placeholder)
                           (zip coord_list frame_list))
       \<and> length (frame_list_cycle sample_prepared) = 2 * length frame_list"
    using a fl c d by blast
  have f: "length (input_latent_list_cycle sample_prepared) = 4"
          "length (frame_list_cycle sample_prepared) = 6"
    by (simp_all add: sample_prepared_def)
  show ?thesis
    by (intro conjI) (fact sample_prepare_fst e f)+
qed

subsection \<open>The manifest and the extracted frames\<close>



section \<open>Properties of the initialization\<close>

lemma read_file_world: "snd (read_file f w) = w"
  by (simp add: read_file_def split: option.splits)

lemma read_file_Inr:
  "read_file f w = (Inr x, w') \<longleftrightarrow> w' = w \<and> (\<exists>d. avatar_path w = Some d \<and> f d = Some x)"
  by (auto simp: read_file_def split: option.splits)

lemma load_sorted_images_world: "snd (load_sorted_images f w) = w"
  by (simp add: load_sorted_images_def io_bind_def glob_images_def io_raise_def io_return_def
           split: option.splits sum.splits)

lemma load_sorted_images_Inr:
  "load_sorted_images f w = (Inr imgs, w') \<longleftrightarrow>
     w' = w
     \<and> (\<exists>files. sorted_by_stem
                    (filter (\<lambda>(name, img). glob_match name)
                       (case avatar_path w of None \<Rightarrow> [] | Some d \<Rightarrow> f d)) = Inr files
              \<and> imgs = read_imgs files)"
  by (auto simp: load_sorted_images_def io_bind_def glob_images_def io_raise_def io_return_def
           split: option.splits sum.splits)

lemma load_step:
  assumes op: "\<And>w. snd (op w) = w"
    and k: "\<And>x w. \<exists>n. snd (k x w) = w\<lparr>events := events w @ take n es\<rparr>"
  shows "\<exists>n. snd (io_bind (emit e) (\<lambda>_. io_bind op k) w)
               = w\<lparr>events := events w @ take n (e # es)\<rparr>"
proof -
  let ?w1 = "w\<lparr>events := events w @ [e]\<rparr>"
  obtain r where r: "op ?w1 = (r, ?w1)"
    using op [of ?w1] by (cases "op ?w1") simp
  show ?thesis
  proof (cases r)
    case (Inl err)
    with r have "snd (io_bind (emit e) (\<lambda>_. io_bind op k) w)
                   = w\<lparr>events := events w @ take 1 (e # es)\<rparr>"
      by (simp add: io_bind_def emit_result)
    then show ?thesis ..
  next
    case (Inr x)
    from k [of x ?w1] obtain n where "snd (k x ?w1) = ?w1\<lparr>events := events ?w1 @ take n es\<rparr>"
      by blast
    with r Inr have "snd (io_bind (emit e) (\<lambda>_. io_bind op k) w)
                   = w\<lparr>events := events w @ take (Suc n) (e # es)\<rparr>"
      by (simp add: io_bind_def emit_result)
    then show ?thesis ..
  qed
qed

lemma load_cycles_events:
  "\<exists>n. snd (load_cycles w)
         = w\<lparr>events := events w
                @ take n [LoadLatents, LoadCoords, LoadFullImgs, LoadMaskCoords, LoadMasks]\<rparr>"
  unfolding load_cycles_def
  apply (rule load_step, rule read_file_world)
  apply (rule load_step, rule read_file_world)
  apply (rule load_step, rule load_sorted_images_world)
  apply (rule load_step, rule read_file_world)
  apply (rule load_step, rule load_sorted_images_world)
  apply (rule exI [of _ 0])
  apply (simp add: io_return_def)
  done

lemma load_cycles_Inr:
  assumes "load_cycles w = (Inr cy, w')"
  shows "w' = w\<lparr>events := events w
                   @ [LoadLatents, LoadCoords, LoadFullImgs, LoadMaskCoords, LoadMasks]\<rparr>
       \<and> (\<exists>d frames masks.
             avatar_path w = Some d
           \<and> latents_pt d = Some (input_latent_list_cycle cy)
           \<and> coords_pkl d = Some (coord_list_cycle cy)
           \<and> mask_coords_pkl d = Some (mask_coords_list_cycle cy)
           \<and> sorted_by_stem (filter (\<lambda>(name, img). glob_match name) (full_imgs d)) = Inr frames
           \<and> frame_list_cycle cy = read_imgs frames
           \<and> sorted_by_stem (filter (\<lambda>(name, img). glob_match name) (mask_dir d)) = Inr masks
           \<and> mask_list_cycle cy = read_imgs masks)"
  using assms unfolding load_cycles_def
  by (auto simp: io_bind_Inr io_return_Inr emit_result read_file_Inr load_sorted_images_Inr)

lemma sorted_by_stem_Inr:
  assumes "sorted_by_stem found = Inr files"
  shows "set files = set found" and "length files = length found"
    and "sorted (map (\<lambda>(name, x). the (stem_key name)) files)"
    and "\<And>v. filter (\<lambda>(name, x). the (stem_key name) = v) files
              = filter (\<lambda>(name, x). the (stem_key name) = v) found"
    and "list_all (\<lambda>(name, x). stem_key name \<noteq> None) found"
proof -
  from assms have ok: "list_all (\<lambda>(name, x). stem_key name \<noteq> None) found"
    and files: "files = sort_key (\<lambda>(name, x). the (stem_key name)) found"
    by (auto simp: sorted_by_stem_def split: if_splits)
  show "list_all (\<lambda>(name, x). stem_key name \<noteq> None) found" by (rule ok)
  show "set files = set found" by (simp add: files)
  show "length files = length found" by (simp add: files)
  show "sorted (map (\<lambda>(name, x). the (stem_key name)) files)" by (simp add: files)
  show "filter (\<lambda>(name, x). the (stem_key name) = v) files
              = filter (\<lambda>(name, x). the (stem_key name) = v) found" for v
    using sort_key_stable [of "\<lambda>(name, x). the (stem_key name)" v found]
    by (simp add: files case_prod_unfold)
qed

lemma need_to_prepare_keep:
  assumes "avatar_path w = Some d" and "\<not> preparation_force self"
    and "avator_info_json d = Some info" and "info_bbox_shift info = bbox_shift self"
  shows "need_to_prepare self w = (Inr False, w\<lparr>events := events w @ [LoadManifest]\<rparr>)"
  using assms
  by (simp add: need_to_prepare_def io_bind_def emit_result read_file_def io_return_def
                avatar_info_of_def)

lemma need_to_prepare_no_manifest:
  assumes "avatar_path w = Some d" and "\<not> preparation_force self"
    and "avator_info_json d = None"
  shows "need_to_prepare self w
           = (Inl FileNotFoundError, w\<lparr>events := events w @ [LoadManifest]\<rparr>)"
  using assms
  by (simp add: need_to_prepare_def io_bind_def emit_result read_file_def)

lemma need_to_prepare_rebuild:
  assumes "avatar_path w = None \<or> preparation_force self
           \<or> (\<exists>d info. avatar_path w = Some d \<and> avator_info_json d = Some info
                  \<and> info_bbox_shift info \<noteq> bbox_shift self)"
  shows "\<exists>pre. set pre \<subseteq> {LoadManifest, Rmtree}
             \<and> need_to_prepare self w
                 = (Inr True, w\<lparr>avatar_path := None, events := events w @ pre\<rparr>)"
proof (cases "avatar_path w")
  case None
  then have "need_to_prepare self w = (Inr True, w\<lparr>avatar_path := None, events := events w @ []\<rparr>)"
    by (simp add: need_to_prepare_def io_return_def)
  then show ?thesis by (intro exI [of _ "[]"]) simp
next
  case (Some d)
  show ?thesis
  proof (cases "preparation_force self")
    case True
    with Some have "need_to_prepare self w
        = (Inr True, w\<lparr>avatar_path := None, events := events w @ [Rmtree]\<rparr>)"
      by (simp add: need_to_prepare_def rmtree_avatar_path_def io_bind_def emit_result io_return_def)
    then show ?thesis by (intro exI [of _ "[Rmtree]"]) simp
  next
    case False
    with assms Some obtain info where
      "avator_info_json d = Some info" "info_bbox_shift info \<noteq> bbox_shift self"
      by auto
    with Some False have "need_to_prepare self w
        = (Inr True, w\<lparr>avatar_path := None, events := events w @ [LoadManifest, Rmtree]\<rparr>)"
      by (simp add: need_to_prepare_def rmtree_avatar_path_def io_bind_def emit_result
                    io_return_def read_file_def avatar_info_of_def)
    then show ?thesis by (intro exI [of _ "[LoadManifest, Rmtree]"]) simp
  qed
qed

lemma init_keep:
  assumes "avatar_path w = Some d" and "\<not> preparation_force self"
    and "avator_info_json d = Some info" and "info_bbox_shift info = bbox_shift self"
  shows "init col self w = load_cycles (w\<lparr>events := events w @ [LoadManifest]\<rparr>)"
  by (simp add: init_def io_bind_def need_to_prepare_keep [OF assms] io_return_def)

lemma modify_dir_Inr:
  "modify_dir f w = (Inr x, w') \<longleftrightarrow>
     (\<exists>d. avatar_path w = Some d \<and> w' = w\<lparr>avatar_path := Some (f d)\<rparr>)"
  by (auto simp: modify_dir_def split: option.splits)

lemma stable_laterD: "stable later m \<Longrightarrow> m w = (r, w') \<Longrightarrow> later w w'"
  by (auto simp: stable_def dest: spec [of _ w])

lemma prepare_material_persisted:
  assumes "prepare_material col self w = (Inr cy, w')"
  shows "\<exists>d' es. avatar_path w' = Some d'
           \<and> avator_info_json d' = Some (avatar_info_of self)
           \<and> latents_pt d' = Some (input_latent_list_cycle cy)
           \<and> coords_pkl d' = Some (coord_list_cycle cy)
           \<and> mask_coords_pkl d' = Some (mask_coords_list_cycle cy)
           \<and> events w' = events w @ WriteManifest (avatar_info_of self) # es
                            @ [DumpMaskCoords, DumpCoords, SaveLatents]"
proof -
  from prepare_material_steps [OF assms]
  obtain w1 w2 and found :: "image dir" and w3 coord_list frame_list w4 input_latent_list w5
    mask_coords masks w6 w7 w8 w9 w10 w11 where
    s1: "write_manifest (avatar_info_of self) w = (Inr (), w1)"
    and s2: "materialize_frames w1 = (Inr (), w2)"
    and s3: "glob_images full_imgs w2 = (Inr found, w3)"
    and s4: "call LandmarkAndBbox
               (get_landmark_and_bbox col (map snd (sort_key fst found)) (bbox_shift self)) w3
             = (Inr (coord_list, frame_list), w4)"
    and s5: "latents_loop col (zip coord_list frame_list) [] w4 = (Inr input_latent_list, w5)"
    and s6: "masks_loop col (coord_list @ rev coord_list)
               (enumerate 0 (frame_list @ rev frame_list)) [] [] w5
             = (Inr (mask_coords, masks), w6)"
    and s7: "emit DumpMaskCoords w6 = (Inr (), w7)"
    and s8: "modify_dir (\<lambda>d. d\<lparr>mask_coords_pkl := Some mask_coords\<rparr>) w7 = (Inr (), w8)"
    and s9: "emit DumpCoords w8 = (Inr (), w9)"
    and s10: "modify_dir (\<lambda>d. d\<lparr>coords_pkl := Some (coord_list @ rev coord_list)\<rparr>) w9
              = (Inr (), w10)"
    and s11: "emit SaveLatents w10 = (Inr (), w11)"
    and s12: "modify_dir (\<lambda>d. d\<lparr>latents_pt := Some (input_latent_list @ rev input_latent_list)\<rparr>)
                w11 = (Inr (), w')"
    and cy: "cy = \<lparr>frame_list_cycle = frame_list @ rev frame_list,
                  coord_list_cycle = coord_list @ rev coord_list,
                  input_latent_list_cycle = input_latent_list @ rev input_latent_list,
                  mask_coords_list_cycle = mask_coords, mask_list_cycle = masks\<rparr>"
    by blast
  from s1 obtain d where d: "avatar_path w = Some d"
    and w1: "w1 = w\<lparr>events := events w @ [WriteManifest (avatar_info_of self)],
                    avatar_path := Some (d\<lparr>avator_info_json := Some (avatar_info_of self)\<rparr>)\<rparr>"
    by (auto simp: write_manifest_result split: option.splits)
  have "later w1 w2" using stable_laterD [OF stable_materialize_frames s2] .
  moreover have "later w2 w3" using stable_laterD [OF stable_glob_images s3] .
  moreover have "later w3 w4" using stable_laterD [OF stable_call s4] .
  moreover have "later w4 w5" using stable_laterD [OF stable_latents_loop s5] .
  moreover have "later w5 w6" using stable_laterD [OF stable_masks_loop s6] .
  ultimately have "later w1 w6" by (blast intro: later_trans)
  with w1 obtain d6 es where
    d6: "avatar_path w6 = Some d6" "avator_info_json d6 = Some (avatar_info_of self)"
    and e6: "events w6 = events w @ WriteManifest (avatar_info_of self) # es"
    by (auto simp: later_def)
  from s7 have w7: "w7 = w6\<lparr>events := events w6 @ [DumpMaskCoords]\<rparr>"
    by (simp add: emit_result)
  from s8 w7 d6 have w8: "w8 = w7\<lparr>avatar_path := Some (d6\<lparr>mask_coords_pkl := Some mask_coords\<rparr>)\<rparr>"
    by (auto simp: modify_dir_Inr)
  from s9 have w9: "w9 = w8\<lparr>events := events w8 @ [DumpCoords]\<rparr>"
    by (simp add: emit_result)
  from s10 w9 w8 have w10:
    "w10 = w9\<lparr>avatar_path :=
               Some (d6\<lparr>mask_coords_pkl := Some mask_coords,
                        coords_pkl := Some (coord_list @ rev coord_list)\<rparr>)\<rparr>"
    by (auto simp: modify_dir_Inr)
  from s11 have w11: "w11 = w10\<lparr>events := events w10 @ [SaveLatents]\<rparr>"
    by (simp add: emit_result)
  from s12 w11 w10 have w': "w' = w11\<lparr>avatar_path :=
               Some (d6\<lparr>mask_coords_pkl := Some mask_coords,
                        coords_pkl := Some (coord_list @ rev coord_list),
                        latents_pt := Some (input_latent_list @ rev input_latent_list)\<rparr>)\<rparr>"
    by (auto simp: modify_dir_Inr)
  show ?thesis
    by (intro exI [of _ "d6\<lparr>mask_coords_pkl := Some mask_coords,
                        coords_pkl := Some (coord_list @ rev coord_list),
                        latents_pt := Some (input_latent_list @ rev input_latent_list)\<rparr>"]
              exI [of _ es])
       (simp add: w' w11 w10 w9 w8 w7 e6 d6 cy)
qed

lemma io_bind_return_unit:
  "io_bind (io_bind m (\<lambda>_. io_return ())) k = io_bind m (\<lambda>_. k ())"
  by (rule ext) (simp add: io_bind_def io_return_def split: prod.splits sum.splits)

lemma io_bind_assoc:
  "io_bind (io_bind m f) g = io_bind m (\<lambda>x. io_bind (f x) g)"
  by (rule ext) (simp add: io_bind_def split: prod.splits sum.splits)

lemma io_bind_first: "m w = (Inr x, w') \<Longrightarrow> io_bind m k w = k x w'"
  by (simp add: io_bind_def)

lemma init_rebuild:
  assumes "avatar_path w = None \<or> preparation_force self
           \<or> (\<exists>d info. avatar_path w = Some d \<and> avator_info_json d = Some info
                  \<and> info_bbox_shift info \<noteq> bbox_shift self)"
  shows "\<exists>pre. set pre \<subseteq> {LoadManifest, Rmtree}
             \<and> init col self w
                 = io_bind (prepare_material col self) (\<lambda>_. load_cycles)
                     (w\<lparr>avatar_path := Some empty_dir, events := events w @ pre @ [Makedirs]\<rparr>)"
proof -
  from need_to_prepare_rebuild [OF assms] obtain pre where
    pre: "set pre \<subseteq> {LoadManifest, Rmtree}"
    and need: "need_to_prepare self w
                 = (Inr True, w\<lparr>avatar_path := None, events := events w @ pre\<rparr>)"
    by blast
  have mk: "osmakedirs (w\<lparr>avatar_path := None, events := events w @ pre\<rparr>)
              = (Inr (), w\<lparr>avatar_path := Some empty_dir, events := events w @ pre @ [Makedirs]\<rparr>)"
    by (simp add: osmakedirs_def io_bind_def emit_result)
  have "init col self w
          = io_bind (io_bind osmakedirs (\<lambda>_.
                       io_bind (prepare_material col self) (\<lambda>_. io_return ())))
              (\<lambda>_. load_cycles) (w\<lparr>avatar_path := None, events := events w @ pre\<rparr>)"
    unfolding init_def
    by (simp add: io_bind_first [of "need_to_prepare self" w True, OF need])
  also have "\<dots> = io_bind (io_bind (prepare_material col self) (\<lambda>_. io_return ()))
              (\<lambda>_. load_cycles)
              (w\<lparr>avatar_path := Some empty_dir, events := events w @ pre @ [Makedirs]\<rparr>)"
    unfolding io_bind_assoc [of osmakedirs]
    by (simp add: io_bind_first [of osmakedirs "w\<lparr>avatar_path := None, events := events w @ pre\<rparr>"
                                    "()", OF mk])
  finally have "init col self w
          = io_bind (io_bind (prepare_material col self) (\<lambda>_. io_return ())) (\<lambda>_. load_cycles)
              (w\<lparr>avatar_path := Some empty_dir, events := events w @ pre @ [Makedirs]\<rparr>)" .
  then show ?thesis
    using pre by (intro exI [of _ pre]) (simp add: io_bind_return_unit)
qed

lemma sorted_by_stem_numbered:
  assumes "numbered files"
  shows "\<exists>sorted_files. sorted_by_stem (filter P files) = Inr sorted_files"
proof -
  have "stem_key name \<noteq> None" if "(name, x) \<in> set files" for name x
  proof -
    from that assms obtain i where "name = png_name i"
      by (force simp: numbered_def)
    then show ?thesis by (simp add: stem_key_png_name)
  qed
  then have "list_all (\<lambda>(name, x). stem_key name \<noteq> None) (filter P files)"
    by (auto simp: list_all_iff)
  then show ?thesis by (simp add: sorted_by_stem_def)
qed

lemma returns_load_cycles:
  "returns (\<lambda>w. numbered_dirs w
               \<and> (\<exists>d. avatar_path w = Some d \<and> latents_pt d \<noteq> None \<and> coords_pkl d \<noteq> None
                      \<and> mask_coords_pkl d \<noteq> None))
     load_cycles (\<lambda>cy w. True)"
  unfolding returns_def
proof (intro allI impI)
  fix w
  assume "numbered_dirs w
               \<and> (\<exists>d. avatar_path w = Some d \<and> latents_pt d \<noteq> None \<and> coords_pkl d \<noteq> None
                      \<and> mask_coords_pkl d \<noteq> None)"
  then obtain d latents coords mask_coords where
    d: "avatar_path w = Some d" "latents_pt d = Some latents" "coords_pkl d = Some coords"
       "mask_coords_pkl d = Some mask_coords"
    and n: "numbered (full_imgs d)" "numbered (mask_dir d)"
    by (auto simp: numbered_dirs_def)
  from sorted_by_stem_numbered [OF n(1)] obtain frames where
    f: "sorted_by_stem (filter (\<lambda>(name, img). glob_match name) (full_imgs d)) = Inr frames"
    by blast
  from sorted_by_stem_numbered [OF n(2)] obtain masks where
    m: "sorted_by_stem (filter (\<lambda>(name, img). glob_match name) (mask_dir d)) = Inr masks"
    by blast
  have "\<exists>cy w'. load_cycles w = (Inr cy, w')"
    unfolding load_cycles_def
    by (simp add: io_bind_Inr io_return_Inr emit_result read_file_Inr load_sorted_images_Inr
                  d f m)
  then show "\<exists>cy w'. load_cycles w = (Inr cy, w') \<and> True" by simp
qed

lemma rebuild_manifest:
  assumes "avatar_path w \<noteq> None"
  shows "\<exists>d'. avatar_path (snd (io_bind (prepare_material col self) (\<lambda>_. load_cycles) w)) = Some d'
            \<and> avator_info_json d' = Some (avatar_info_of self)"
proof -
  obtain r w3 where p: "prepare_material col self w = (r, w3)"
    by (cases "prepare_material col self w")
  from prepare_material_manifest_first [of col self w] assms p obtain d3 where
    d3: "avatar_path w3 = Some d3" "avator_info_json d3 = Some (avatar_info_of self)"
    by auto
  show ?thesis
  proof (cases r)
    case (Inl e)
    with p d3 show ?thesis by (simp add: io_bind_def)
  next
    case (Inr cyP)
    from load_cycles_events [of w3] obtain n where
      "snd (load_cycles w3)
         = w3\<lparr>events := events w3
                @ take n [LoadLatents, LoadCoords, LoadFullImgs, LoadMaskCoords, LoadMasks]\<rparr>"
      by blast
    with p Inr d3 show ?thesis by (simp add: io_bind_def)
  qed
qed

lemma rebuild_artifacts:
  assumes "fst (io_bind (prepare_material col self) (\<lambda>_. load_cycles) w) = Inr cy"
  shows "\<exists>d' es. avatar_path (snd (io_bind (prepare_material col self) (\<lambda>_. load_cycles) w))
                   = Some d'
           \<and> latents_pt d' = Some (input_latent_list_cycle cy)
           \<and> coords_pkl d' = Some (coord_list_cycle cy)
           \<and> mask_coords_pkl d' = Some (mask_coords_list_cycle cy)
           \<and> events (snd (io_bind (prepare_material col self) (\<lambda>_. load_cycles) w))
               = events w @ WriteManifest (avatar_info_of self) # es
                   @ [DumpMaskCoords, DumpCoords, SaveLatents,
                      LoadLatents, LoadCoords, LoadFullImgs, LoadMaskCoords, LoadMasks]"
proof -
  obtain w4 where run: "io_bind (prepare_material col self) (\<lambda>_. load_cycles) w = (Inr cy, w4)"
    using assms by (cases "io_bind (prepare_material col self) (\<lambda>_. load_cycles) w") simp
  then obtain cyP w3 where p: "prepare_material col self w = (Inr cyP, w3)"
    and l: "load_cycles w3 = (Inr cy, w4)"
    unfolding io_bind_Inr by blast
  from prepare_material_persisted [OF p] obtain d3 es where
    d3: "avatar_path w3 = Some d3"
    and e3: "events w3 = events w @ WriteManifest (avatar_info_of self) # es
                            @ [DumpMaskCoords, DumpCoords, SaveLatents]"
    by blast
  from load_cycles_Inr [OF l] d3 have
    w4: "w4 = w3\<lparr>events := events w3
                   @ [LoadLatents, LoadCoords, LoadFullImgs, LoadMaskCoords, LoadMasks]\<rparr>"
    and a: "latents_pt d3 = Some (input_latent_list_cycle cy)"
           "coords_pkl d3 = Some (coord_list_cycle cy)"
           "mask_coords_pkl d3 = Some (mask_coords_list_cycle cy)"
    by auto
  show ?thesis
    unfolding run snd_conv w4
    by (intro exI [of _ d3] exI [of _ es]) (simp add: d3 a e3)
qed

lemma init_no_rebuild:
  assumes "\<not> (avatar_path w = None \<or> preparation_force self
           \<or> (\<exists>d info. avatar_path w = Some d \<and> avator_info_json d = Some info
                  \<and> info_bbox_shift info \<noteq> bbox_shift self))"
  shows "\<exists>n. snd (init col self w)
           = w\<lparr>events := events w
                  @ take n [LoadManifest, LoadLatents, LoadCoords, LoadFullImgs, LoadMaskCoords,
                            LoadMasks]\<rparr>"
proof -
  from assms obtain d where d: "avatar_path w = Some d" and f: "\<not> preparation_force self"
    by auto
  show ?thesis
  proof (cases "avator_info_json d")
    case None
    have "snd (init col self w) = w\<lparr>events := events w @ take 1 [LoadManifest, LoadLatents,
            LoadCoords, LoadFullImgs, LoadMaskCoords, LoadMasks]\<rparr>"
      by (simp add: init_def io_bind_def need_to_prepare_no_manifest [OF d f None])
    then show ?thesis ..
  next
    case (Some info)
    with assms d have "info_bbox_shift info = bbox_shift self" by auto
    note run = init_keep [OF d f Some this, of col]
    from load_cycles_events [of "w\<lparr>events := events w @ [LoadManifest]\<rparr>"] obtain n where
      "snd (load_cycles (w\<lparr>events := events w @ [LoadManifest]\<rparr>))
         = w\<lparr>events := events w @ [LoadManifest]
                @ take n [LoadLatents, LoadCoords, LoadFullImgs, LoadMaskCoords, LoadMasks]\<rparr>"
      by auto
    then have "snd (init col self w) = w\<lparr>events := events w @ take (Suc n) [LoadManifest,
            LoadLatents, LoadCoords, LoadFullImgs, LoadMaskCoords, LoadMasks]\<rparr>"
      by (simp add: run)
    then show ?thesis ..
  qed
qed

lemma init_rebuild_returns:
  assumes stale: "avatar_path w = None \<or> preparation_force self
           \<or> (\<exists>d info. avatar_path w = Some d \<and> avator_info_json d = Some info
                  \<and> info_bbox_shift info \<noteq> bbox_shift self)"
    and video: "video_src w = VideoFile cap"
    and landmark: "\<And>imgs. \<exists>coords frames.
        get_landmark_and_bbox col imgs (bbox_shift self) = Some (coords, frames)
      \<and> length coords = length frames"
    and crop: "\<And>img box. resize_crop col img box \<noteq> None"
    and vae: "\<And>img. get_latents_for_unet col img \<noteq> None"
    and parse: "\<And>img box. get_image_prepare_material col img box \<noteq> None"
  shows "\<exists>cy. fst (init col self w) = Inr cy"
proof -
  from init_rebuild [OF stale, of col] obtain pre where
    run: "init col self w
              = io_bind (prepare_material col self) (\<lambda>_. load_cycles)
                  (w\<lparr>avatar_path := Some empty_dir, events := events w @ pre @ [Makedirs]\<rparr>)"
    by blast
  let ?w2 = "w\<lparr>avatar_path := Some empty_dir, events := events w @ pre @ [Makedirs]\<rparr>"
  have "numbered_dirs ?w2 \<and> (\<exists>cap. video_src ?w2 = VideoFile cap)"
    by (simp add: numbered_dirs_def numbered_def empty_dir_def video)
  with returns_prepare_material [OF landmark crop vae parse] obtain cyP w3 where
    p: "prepare_material col self ?w2 = (Inr cyP, w3)" and n: "numbered_dirs w3"
    unfolding returns_def by blast
  from prepare_material_persisted [OF p] n have
    "numbered_dirs w3
       \<and> (\<exists>d. avatar_path w3 = Some d \<and> latents_pt d \<noteq> None \<and> coords_pkl d \<noteq> None
              \<and> mask_coords_pkl d \<noteq> None)"
    by auto
  with returns_load_cycles obtain cy w4 where "load_cycles w3 = (Inr cy, w4)"
    unfolding returns_def by blast
  with p have "fst (init col self w) = Inr cy"
    by (simp add: run io_bind_def)
  then show ?thesis ..
qed

subsection \<open>Loading an existing cache\<close>

text \<open>
  Claim C8. When no rebuild is needed (the working directory exists, no rebuild is
  forced and the manifest holds the requested shape parameter), \<open>init\<close> reads the
  manifest and then loads the five artifacts in the order latents, coords, full frames,
  mask coords, mask frames: the events of a successful load are exactly these, and a
  load that raises stops after a prefix of them. The lists of latent codes, boxes and
  mask boxes are the contents of their files. The two lists of images are the images
  of the files that match the pattern, sorted by the integer that the stem of the file
  name reads as: the keys go up along the list, the files are those found, and files
  with the same key keep the order in which they were found.
\<close>

theorem load_order_and_numeric_sort:
  assumes "avatar_path w = Some d" and "\<not> preparation_force self"
    and "avator_info_json d = Some info" and "info_bbox_shift info = bbox_shift self"
  shows "(\<exists>n. snd (init col self w)
               = w\<lparr>events := events w @ LoadManifest
                      # take n [LoadLatents, LoadCoords, LoadFullImgs, LoadMaskCoords, LoadMasks]\<rparr>)
       \<and> (\<forall>cy. fst (init col self w) = Inr cy \<longrightarrow>
             snd (init col self w)
               = w\<lparr>events := events w
                      @ [LoadManifest, LoadLatents, LoadCoords, LoadFullImgs, LoadMaskCoords,
                         LoadMasks]\<rparr>
           \<and> latents_pt d = Some (input_latent_list_cycle cy)
           \<and> coords_pkl d = Some (coord_list_cycle cy)
           \<and> mask_coords_pkl d = Some (mask_coords_list_cycle cy)
           \<and> (\<exists>frames masks.
                 frame_list_cycle cy = map snd frames
               \<and> mask_list_cycle cy = map snd masks
               \<and> set frames = set (filter (\<lambda>(name, img). glob_match name) (full_imgs d))
               \<and> length frames = length (filter (\<lambda>(name, img). glob_match name) (full_imgs d))
               \<and> set masks = set (filter (\<lambda>(name, img). glob_match name) (mask_dir d))
               \<and> length masks = length (filter (\<lambda>(name, img). glob_match name) (mask_dir d))
               \<and> sorted (map (\<lambda>(name, img). the (stem_key name)) frames)
               \<and> sorted (map (\<lambda>(name, img). the (stem_key name)) masks)
               \<and> (\<forall>v. filter (\<lambda>(name, img). the (stem_key name) = v) frames
                        = filter (\<lambda>(name, img). the (stem_key name) = v)
                            (filter (\<lambda>(name, img). glob_match name) (full_imgs d)))
               \<and> (\<forall>v. filter (\<lambda>(name, img). the (stem_key name) = v) masks
                        = filter (\<lambda>(name, img). the (stem_key name) = v)
                            (filter (\<lambda>(name, img). glob_match name) (mask_dir d)))))"
proof (intro conjI allI impI)
  let ?w1 = "w\<lparr>events := events w @ [LoadManifest]\<rparr>"
  have run: "init col self w = load_cycles ?w1"
    using assms by (rule init_keep)
  from load_cycles_events [of ?w1] show
    "\<exists>n. snd (init col self w)
               = w\<lparr>events := events w @ LoadManifest
                      # take n [LoadLatents, LoadCoords, LoadFullImgs, LoadMaskCoords, LoadMasks]\<rparr>"
    unfolding run by simp
  fix cy
  assume "fst (init col self w) = Inr cy"
  then have "load_cycles ?w1 = (Inr cy, snd (load_cycles ?w1))"
    unfolding run by (simp add: prod_eq_iff)
  from load_cycles_Inr [OF this] assms(1) obtain frames masks where
    w': "snd (load_cycles ?w1)
           = ?w1\<lparr>events := events ?w1
                   @ [LoadLatents, LoadCoords, LoadFullImgs, LoadMaskCoords, LoadMasks]\<rparr>"
    and l: "latents_pt d = Some (input_latent_list_cycle cy)"
           "coords_pkl d = Some (coord_list_cycle cy)"
           "mask_coords_pkl d = Some (mask_coords_list_cycle cy)"
    and f: "sorted_by_stem (filter (\<lambda>(name, img). glob_match name) (full_imgs d)) = Inr frames"
           "frame_list_cycle cy = read_imgs frames"
    and m: "sorted_by_stem (filter (\<lambda>(name, img). glob_match name) (mask_dir d)) = Inr masks"
           "mask_list_cycle cy = read_imgs masks"
    by auto
  show "snd (init col self w)
               = w\<lparr>events := events w
                      @ [LoadManifest, LoadLatents, LoadCoords, LoadFullImgs, LoadMaskCoords,
                         LoadMasks]\<rparr>"
    unfolding run w' by simp
  show "latents_pt d = Some (input_latent_list_cycle cy)"
       "coords_pkl d = Some (coord_list_cycle cy)"
       "mask_coords_pkl d = Some (mask_coords_list_cycle cy)"
    by (fact l)+
  show "\<exists>frames masks.
                 frame_list_cycle cy = map snd frames
               \<and> mask_list_cycle cy = map snd masks
               \<and> set frames = set (filter (\<lambda>(name, img). glob_match name) (full_imgs d))
               \<and> length frames = length (filter (\<lambda>(name, img). glob_match name) (full_imgs d))
               \<and> set masks = set (filter (\<lambda>(name, img). glob_match name) (mask_dir d))
               \<and> length masks = length (filter (\<lambda>(name, img). glob_match name) (mask_dir d))
               \<and> sorted (map (\<lambda>(name, img). the (stem_key name)) frames)
               \<and> sorted (map (\<lambda>(name, img). the (stem_key name)) masks)
               \<and> (\<forall>v. filter (\<lambda>(name, img). the (stem_key name) = v) frames
                        = filter (\<lambda>(name, img). the (stem_key name) = v)
                            (filter (\<lambda>(name, img). glob_match name) (full_imgs d)))
               \<and> (\<forall>v. filter (\<lambda>(name, img). the (stem_key name) = v) masks
                        = filter (\<lambda>(name, img). the (stem_key name) = v)
                            (filter (\<lambda>(name, img). glob_match name) (mask_dir d)))"
    using sorted_by_stem_Inr [OF f(1)] sorted_by_stem_Inr [OF m(1)] f(2) m(2)
    by (intro exI [of _ frames] exI [of _ masks]) (simp add: read_imgs_def)
qed

theorem load_order_and_numeric_sort_witness:
  "avatar_path cached_world \<noteq> None
   \<and> \<not> preparation_force sample_avatar
   \<and> fst (init sample_collab sample_avatar cached_world)
       = Inr \<lparr>frame_list_cycle = [Image 9, Image 10],
              coord_list_cycle = [(1, 1, 10, 10), (2, 2, 10, 10)],
              input_latent_list_cycle = [Latent 9, Latent 10],
              mask_coords_list_cycle = [(0, 0, 12, 12), (1, 1, 12, 12)],
              mask_list_cycle = [Image 109, Image 110]\<rparr>
   \<and> events (snd (init sample_collab sample_avatar cached_world))
       = [LoadManifest, LoadLatents, LoadCoords, LoadFullImgs, LoadMaskCoords, LoadMasks]
   \<and> sort [''10.png'', ''9.png''] = [''10.png'', ''9.png'']"
proof -
  let ?d = "\<lparr>avator_info_json = Some (avatar_info_of sample_avatar),
              full_imgs = [(''10.png'', Image 10), (''9.png'', Image 9)],
              mask_dir = [(''10.png'', Image 110), (''9.png'', Image 109)],
              coords_pkl = Some [(1, 1, 10, 10), (2, 2, 10, 10)],
              latents_pt = Some [Latent 9, Latent 10],
              mask_coords_pkl = Some [(0, 0, 12, 12), (1, 1, 12, 12)],
              tmp_dir = None, temp_mp4 = None\<rparr>"
  have a: "avatar_path cached_world = Some ?d" by (simp add: cached_world_def)
  have b: "\<not> preparation_force sample_avatar" by (simp add: sample_avatar_def)
  have c: "avator_info_json ?d = Some (avatar_info_of sample_avatar)" by simp
  have d: "info_bbox_shift (avatar_info_of sample_avatar) = bbox_shift sample_avatar"
    by (simp add: avatar_info_of_def)
  have run: "fst (init sample_collab sample_avatar cached_world)
       = Inr \<lparr>frame_list_cycle = [Image 9, Image 10],
              coord_list_cycle = [(1, 1, 10, 10), (2, 2, 10, 10)],
              input_latent_list_cycle = [Latent 9, Latent 10],
              mask_coords_list_cycle = [(0, 0, 12, 12), (1, 1, 12, 12)],
              mask_list_cycle = [Image 109, Image 110]\<rparr>"
    by code_simp
  note c8 = load_order_and_numeric_sort [OF a b c d, of sample_collab]
  from c8 run have "snd (init sample_collab sample_avatar cached_world)
     = cached_world\<lparr>events := events cached_world
          @ [LoadManifest, LoadLatents, LoadCoords, LoadFullImgs, LoadMaskCoords, LoadMasks]\<rparr>"
    by blast
  then have ev: "events (snd (init sample_collab sample_avatar cached_world))
       = [LoadManifest, LoadLatents, LoadCoords, LoadFullImgs, LoadMaskCoords, LoadMasks]"
    by (simp add: cached_world_def)
  have lex: "sort [''10.png'', ''9.png''] = [''10.png'', ''9.png'']"
    by code_simp
  show ?thesis
    by (intro conjI) (fact b run ev lex | simp add: a)+
qed

subsection \<open>Rebuilding a stale cache\<close>

text \<open>
  Claim C6. When the working directory does not exist, or a rebuild is forced, or the
  manifest of the working directory holds a shape parameter other than the requested
  one, \<open>init\<close> deletes the directory tree if there is one and runs the preparation on a
  newly made, empty working directory, then loads the lists. Whatever the outcome, the
  manifest is then in the working directory with the requested shape parameter; and
  when \<open>init\<close> returns, the three serialized lists are in the working directory with
  the contents that \<open>init\<close> returns, the manifest and the three lists were written by
  this run after the directory was made, and the two image directories were read from
  the rebuilt tree. The rebuild does return when the source is a video file and no
  collaborator raises, the landmark collaborator giving one box per frame. In every
  other case \<open>init\<close> leaves the working directory as it is:
  it only reads from it.
\<close>

theorem rebuild_when_stale:
  "(avatar_path w = None \<or> preparation_force self
      \<or> (\<exists>d info. avatar_path w = Some d \<and> avator_info_json d = Some info
             \<and> info_bbox_shift info \<noteq> bbox_shift self) \<longrightarrow>
      (\<exists>pre. set pre \<subseteq> {LoadManifest, Rmtree}
          \<and> init col self w
              = io_bind (prepare_material col self) (\<lambda>_. load_cycles)
                  (w\<lparr>avatar_path := Some empty_dir, events := events w @ pre @ [Makedirs]\<rparr>))
    \<and> (\<exists>d' info'. avatar_path (snd (init col self w)) = Some d'
          \<and> avator_info_json d' = Some info'
          \<and> info' = avatar_info_of self
          \<and> info_bbox_shift info' = bbox_shift self)
    \<and> (\<forall>cy. fst (init col self w) = Inr cy \<longrightarrow>
          (\<exists>d' pre es. avatar_path (snd (init col self w)) = Some d'
             \<and> latents_pt d' = Some (input_latent_list_cycle cy)
             \<and> coords_pkl d' = Some (coord_list_cycle cy)
             \<and> mask_coords_pkl d' = Some (mask_coords_list_cycle cy)
             \<and> events (snd (init col self w))
                 = events w @ pre @ [Makedirs, WriteManifest (avatar_info_of self)] @ es
                     @ [DumpMaskCoords, DumpCoords, SaveLatents,
                        LoadLatents, LoadCoords, LoadFullImgs, LoadMaskCoords, LoadMasks]))
    \<and> ((\<exists>cap. video_src w = VideoFile cap)
         \<and> (\<forall>imgs. \<exists>coords frames.
                get_landmark_and_bbox col imgs (bbox_shift self) = Some (coords, frames)
              \<and> length coords = length frames)
         \<and> (\<forall>img box. resize_crop col img box \<noteq> None)
         \<and> (\<forall>img. get_latents_for_unet col img \<noteq> None)
         \<and> (\<forall>img box. get_image_prepare_material col img box \<noteq> None) \<longrightarrow>
         (\<exists>cy. fst (init col self w) = Inr cy)))
   \<and> (\<not> (avatar_path w = None \<or> preparation_force self
          \<or> (\<exists>d info. avatar_path w = Some d \<and> avator_info_json d = Some info
                 \<and> info_bbox_shift info \<noteq> bbox_shift self)) \<longrightarrow>
      avatar_path (snd (init col self w)) = avatar_path w
      \<and> (\<exists>n. events (snd (init col self w))
                = events w @ take n [LoadManifest, LoadLatents, LoadCoords, LoadFullImgs,
                                     LoadMaskCoords, LoadMasks]))"
proof (intro conjI impI)
  assume stale: "avatar_path w = None \<or> preparation_force self
      \<or> (\<exists>d info. avatar_path w = Some d \<and> avator_info_json d = Some info
             \<and> info_bbox_shift info \<noteq> bbox_shift self)"
  from init_rebuild [OF stale, of col] obtain pre where
    pre: "set pre \<subseteq> {LoadManifest, Rmtree}"
    and run: "init col self w
              = io_bind (prepare_material col self) (\<lambda>_. load_cycles)
                  (w\<lparr>avatar_path := Some empty_dir, events := events w @ pre @ [Makedirs]\<rparr>)"
    by blast
  let ?w2 = "w\<lparr>avatar_path := Some empty_dir, events := events w @ pre @ [Makedirs]\<rparr>"
  show "\<exists>pre. set pre \<subseteq> {LoadManifest, Rmtree}
          \<and> init col self w
              = io_bind (prepare_material col self) (\<lambda>_. load_cycles)
                  (w\<lparr>avatar_path := Some empty_dir, events := events w @ pre @ [Makedirs]\<rparr>)"
    using pre run by blast
  have "avatar_path ?w2 \<noteq> None" by simp
  from rebuild_manifest [OF this, of col self]
  show "\<exists>d' info'. avatar_path (snd (init col self w)) = Some d'
          \<and> avator_info_json d' = Some info'
          \<and> info' = avatar_info_of self
          \<and> info_bbox_shift info' = bbox_shift self"
    unfolding run by (auto simp: avatar_info_of_def)
  show "\<forall>cy. fst (init col self w) = Inr cy \<longrightarrow>
          (\<exists>d' pre es. avatar_path (snd (init col self w)) = Some d'
             \<and> latents_pt d' = Some (input_latent_list_cycle cy)
             \<and> coords_pkl d' = Some (coord_list_cycle cy)
             \<and> mask_coords_pkl d' = Some (mask_coords_list_cycle cy)
             \<and> events (snd (init col self w))
                 = events w @ pre @ [Makedirs, WriteManifest (avatar_info_of self)] @ es
                     @ [DumpMaskCoords, DumpCoords, SaveLatents,
                        LoadLatents, LoadCoords, LoadFullImgs, LoadMaskCoords, LoadMasks])"
  proof (intro allI impI)
    fix cy
    assume "fst (init col self w) = Inr cy"
    then have "fst (io_bind (prepare_material col self) (\<lambda>_. load_cycles) ?w2) = Inr cy"
      by (simp add: run)
    from rebuild_artifacts [OF this] obtain d' es where
      "avatar_path (snd (init col self w)) = Some d'"
      "latents_pt d' = Some (input_latent_list_cycle cy)"
      "coords_pkl d' = Some (coord_list_cycle cy)"
      "mask_coords_pkl d' = Some (mask_coords_list_cycle cy)"
      "events (snd (init col self w))
         = events ?w2 @ WriteManifest (avatar_info_of self) # es
             @ [DumpMaskCoords, DumpCoords, SaveLatents,
                LoadLatents, LoadCoords, LoadFullImgs, LoadMaskCoords, LoadMasks]"
      unfolding run by blast
    then show "\<exists>d' pre es. avatar_path (snd (init col self w)) = Some d'
             \<and> latents_pt d' = Some (input_latent_list_cycle cy)
             \<and> coords_pkl d' = Some (coord_list_cycle cy)
             \<and> mask_coords_pkl d' = Some (mask_coords_list_cycle cy)
             \<and> events (snd (init col self w))
                 = events w @ pre @ [Makedirs, WriteManifest (avatar_info_of self)] @ es
                     @ [DumpMaskCoords, DumpCoords, SaveLatents,
                        LoadLatents, LoadCoords, LoadFullImgs, LoadMaskCoords, LoadMasks]"
      by (intro exI [of _ d'] exI [of _ pre] exI [of _ es]) simp
  qed
  show "\<exists>cy. fst (init col self w) = Inr cy"
    if "(\<exists>cap. video_src w = VideoFile cap)
         \<and> (\<forall>imgs. \<exists>coords frames.
                get_landmark_and_bbox col imgs (bbox_shift self) = Some (coords, frames)
              \<and> length coords = length frames)
         \<and> (\<forall>img box. resize_crop col img box \<noteq> None)
         \<and> (\<forall>img. get_latents_for_unet col img \<noteq> None)
         \<and> (\<forall>img box. get_image_prepare_material col img box \<noteq> None)"
  proof -
    from that obtain cap where video: "video_src w = VideoFile cap" by (elim conjE exE)
    have landmark: "\<exists>coords frames.
                get_landmark_and_bbox col imgs (bbox_shift self) = Some (coords, frames)
              \<and> length coords = length frames" for imgs
      using that by blast
    have crop: "resize_crop col img box \<noteq> None" for img box
      using that by blast
    have vae: "get_latents_for_unet col img \<noteq> None" for img
      using that by blast
    have parse: "get_image_prepare_material col img box \<noteq> None" for img box
      using that by blast
    show ?thesis
      by (rule init_rebuild_returns [OF stale video landmark crop vae parse])
  qed
next
  assume fresh: "\<not> (avatar_path w = None \<or> preparation_force self
          \<or> (\<exists>d info. avatar_path w = Some d \<and> avator_info_json d = Some info
                 \<and> info_bbox_shift info \<noteq> bbox_shift self))"
  from init_no_rebuild [OF fresh, of col] obtain n where
    n: "snd (init col self w)
           = w\<lparr>events := events w
                  @ take n [LoadManifest, LoadLatents, LoadCoords, LoadFullImgs, LoadMaskCoords,
                            LoadMasks]\<rparr>"
    by blast
  show "avatar_path (snd (init col self w)) = avatar_path w"
    by (simp add: n)
  show "\<exists>n. events (snd (init col self w))
                = events w @ take n [LoadManifest, LoadLatents, LoadCoords, LoadFullImgs,
                                     LoadMaskCoords, LoadMasks]"
    by (rule exI [of _ n]) (simp add: n)
qed

theorem rebuild_when_stale_witness:
  "avatar_path sample_world = None
   \<and> fst (init sample_collab sample_avatar sample_world) = Inr sample_prepared
   \<and> map_option avator_info_json (avatar_path (snd (init sample_collab sample_avatar sample_world)))
       = Some (Some (avatar_info_of sample_avatar))
   \<and> map_option latents_pt (avatar_path (snd (init sample_collab sample_avatar sample_world)))
       = Some (Some (input_latent_list_cycle sample_prepared))
   \<and> map_option (info_bbox_shift \<circ> the \<circ> avator_info_json) (avatar_path cached_world) = Some 5
   \<and> bbox_shift (sample_avatar\<lparr>bbox_shift := 3\<rparr>) = 3
   \<and> map_option avator_info_json
        (avatar_path (snd (init sample_collab (sample_avatar\<lparr>bbox_shift := 3\<rparr>) cached_world)))
       = Some (Some (avatar_info_of (sample_avatar\<lparr>bbox_shift := 3\<rparr>)))
   \<and> avatar_path (snd (init sample_collab sample_avatar cached_world))
       = avatar_path cached_world
   \<and> (\<exists>cy. fst (init sample_collab sample_avatar sample_world) = Inr cy)"
proof -
  let ?d = "\<lparr>avator_info_json = Some (avatar_info_of sample_avatar),
              full_imgs = [(''10.png'', Image 10), (''9.png'', Image 9)],
              mask_dir = [(''10.png'', Image 110), (''9.png'', Image 109)],
              coords_pkl = Some [(1, 1, 10, 10), (2, 2, 10, 10)],
              latents_pt = Some [Latent 9, Latent 10],
              mask_coords_pkl = Some [(0, 0, 12, 12), (1, 1, 12, 12)],
              tmp_dir = None, temp_mp4 = None\<rparr>"
  let ?other = "sample_avatar\<lparr>bbox_shift := 3\<rparr>"
  have none: "avatar_path sample_world = None"
    by (simp add: sample_world_def)
  have run: "fst (init sample_collab sample_avatar sample_world) = Inr sample_prepared"
    by code_simp
  note fresh = rebuild_when_stale [where w = sample_world and self = sample_avatar
                                     and col = sample_collab]
  have stale_fresh: "avatar_path sample_world = None \<or> preparation_force sample_avatar
      \<or> (\<exists>d info. avatar_path sample_world = Some d \<and> avator_info_json d = Some info
             \<and> info_bbox_shift info \<noteq> bbox_shift sample_avatar)"
    using none by (rule disjI1)
  note rebuilt = fresh [THEN conjunct1, THEN mp, OF stale_fresh]
  from rebuilt [THEN conjunct2, THEN conjunct1] have 1:
    "map_option avator_info_json (avatar_path (snd (init sample_collab sample_avatar sample_world)))
       = Some (Some (avatar_info_of sample_avatar))"
    by auto
  from rebuilt [THEN conjunct2, THEN conjunct2, THEN conjunct1, THEN spec, THEN mp, OF run] have 2:
    "map_option latents_pt (avatar_path (snd (init sample_collab sample_avatar sample_world)))
       = Some (Some (input_latent_list_cycle sample_prepared))"
    by auto
  have cached: "avatar_path cached_world = Some ?d"
    by (simp add: cached_world_def)
  have shift: "info_bbox_shift (avatar_info_of sample_avatar) = 5"
              "bbox_shift sample_avatar = 5" "bbox_shift ?other = 3"
              "\<not> preparation_force sample_avatar"
    by (simp_all add: avatar_info_of_def sample_avatar_def)
  have stale: "\<exists>d info. avatar_path cached_world = Some d \<and> avator_info_json d = Some info
                 \<and> info_bbox_shift info \<noteq> bbox_shift ?other"
    using cached shift by simp
  note changed = rebuild_when_stale [where w = cached_world and self = ?other
                                       and col = sample_collab]
  have stale_changed: "avatar_path cached_world = None \<or> preparation_force ?other
      \<or> (\<exists>d info. avatar_path cached_world = Some d \<and> avator_info_json d = Some info
             \<and> info_bbox_shift info \<noteq> bbox_shift ?other)"
    using stale by (intro disjI2)
  from changed [THEN conjunct1, THEN mp, OF stale_changed, THEN conjunct2, THEN conjunct1] have 3:
    "map_option avator_info_json
        (avatar_path (snd (init sample_collab ?other cached_world)))
       = Some (Some (avatar_info_of ?other))"
    by auto
  have keep: "\<not> (avatar_path cached_world = None \<or> preparation_force sample_avatar
          \<or> (\<exists>d info. avatar_path cached_world = Some d \<and> avator_info_json d = Some info
                 \<and> info_bbox_shift info \<noteq> bbox_shift sample_avatar))"
    using cached shift by simp
  note same = rebuild_when_stale [where w = cached_world and self = sample_avatar
                                    and col = sample_collab]
  have 4:
    "avatar_path (snd (init sample_collab sample_avatar cached_world)) = avatar_path cached_world"
    by (rule same [THEN conjunct2, THEN mp, OF keep, THEN conjunct1])
  have 5: "map_option (info_bbox_shift \<circ> the \<circ> avator_info_json) (avatar_path cached_world) = Some 5"
    using cached shift by simp
  have video: "\<exists>cap. video_src sample_world = VideoFile cap"
    by (simp add: sample_world_def)
  have collaborators:
    "\<forall>imgs. \<exists>coords frames.
        get_landmark_and_bbox sample_collab imgs (bbox_shift sample_avatar) = Some (coords, frames)
      \<and> length coords = length frames"
    "\<forall>img box. resize_crop sample_collab img box \<noteq> None"
    "\<forall>img. get_latents_for_unet sample_collab img \<noteq> None"
    "\<forall>img box. get_image_prepare_material sample_collab img box \<noteq> None"
    by (simp_all add: sample_collab_def split: image.splits)
  note returns = rebuilt [THEN conjunct2, THEN conjunct2, THEN conjunct2, THEN mp]
  have 6: "\<exists>cy. fst (init sample_collab sample_avatar sample_world) = Inr cy"
    by (rule returns) (intro conjI video collaborators)
  show ?thesis
    by (intro conjI) (fact none run 1 2 3 4 5 6 shift)+
qed

section \<open>Properties of the render\<close>

lemma frame_body_cases:
  assumes "frame_body col cy skip r c = Inr c'"
  shows "(idx c' = idx c \<and> skipped c' = skipped c + 1 \<and> tmp_files c' = tmp_files c)
       \<or> (\<exists>x. idx c' = idx c + 1 \<and> skipped c' = skipped c
             \<and> tmp_files c' = (if skip then tmp_files c
                                else write_file (png_name (idx c)) x (tmp_files c)))"
  using assms
  by (auto simp: frame_body_def Let_def split: if_splits prod.splits option.splits)

lemma process_frames_count:
  "idx c \<le> idx (end_state (process_frames col cy vl skip items c))
   \<and> skipped c \<le> skipped (end_state (process_frames col cy vl skip items c))
   \<and> idx (end_state (process_frames col cy vl skip items c))
       + skipped (end_state (process_frames col cy vl skip items c))
       \<le> idx c + skipped c + length items"
proof (induction items arbitrary: c)
  case Nil
  show ?case by simp
next
  case (Cons r items)
  show ?case
  proof (cases "frame_body col cy skip r c")
    case (Inl e)
    then show ?thesis by simp
  next
    case (Inr c')
    from frame_body_cases [OF Inr] Cons [of c'] show ?thesis
      by (auto simp: Inr)
  qed
qed

lemma process_frames_blocked:
  "process_frames col cy vl skip items c = Blocked c' \<Longrightarrow>
   idx c' + skipped c' = idx c + skipped c + length items \<and> int (idx c') < int vl - 1"
proof (induction items arbitrary: c)
  case Nil
  then show ?case by (auto split: if_splits)
next
  case (Cons r items)
  show ?case
  proof (cases "frame_body col cy skip r c")
    case (Inl e)
    with Cons.prems show ?thesis by (simp split: if_splits)
  next
    case (Inr c1)
    with Cons.prems have "process_frames col cy vl skip items c1 = Blocked c'"
      by (simp split: if_splits)
    from Cons.IH [OF this] frame_body_cases [OF Inr] show ?thesis
      by auto
  qed
qed

lemma process_frames_finished:
  "process_frames col cy vl skip items c = Finished c' \<Longrightarrow>
   int (idx c') \<ge> int vl - 1
   \<and> (int (idx c) \<le> int vl - 1 \<longrightarrow> int (idx c') = int vl - 1)"
proof (induction items arbitrary: c)
  case Nil
  then show ?case by (auto split: if_splits)
next
  case (Cons r items)
  show ?case
  proof (cases "int (idx c) \<ge> int vl - 1")
    case True
    with Cons.prems show ?thesis by auto
  next
    case False
    show ?thesis
    proof (cases "frame_body col cy skip r c")
      case (Inl e)
      with Cons.prems False show ?thesis by simp
    next
      case (Inr c1)
      with Cons.prems False have "process_frames col cy vl skip items c1 = Finished c'"
        by simp
      from Cons.IH [OF this] frame_body_cases [OF Inr] False show ?thesis
        by auto
    qed
  qed
qed

lemma process_frames_names:
  "map fst (tmp_files c) = map png_name [0..<idx c] \<Longrightarrow>
   map fst (tmp_files (end_state (process_frames col cy vl False items c)))
     = map png_name [0..<idx (end_state (process_frames col cy vl False items c))]"
proof (induction items arbitrary: c)
  case Nil
  then show ?case by simp
next
  case (Cons r items)
  show ?case
  proof (cases "frame_body col cy False r c")
    case (Inl e)
    with Cons.prems show ?thesis by simp
  next
    case (Inr c1)
    have fresh: "png_name (idx c) \<notin> set (map fst (tmp_files c))"
      using Cons.prems by (auto dest: png_name_inj)
    have "map fst (tmp_files c1) = map png_name [0..<idx c1]"
      using frame_body_cases [OF Inr] Cons.prems
      by (auto simp: write_file_new [OF fresh])
    from Cons.IH [OF this] Cons.prems show ?thesis
      by (simp add: Inr)
  qed
qed

lemma concat_batches: "0 < n \<Longrightarrow> concat (batches n xs) = xs"
proof (induction n xs rule: batches.induct)
  case (1 n xs)
  show ?case
  proof (cases "xs = []")
    case True
    then show ?thesis by (subst batches.simps) simp
  next
    case False
    with 1 show ?thesis by (subst batches.simps) simp
  qed
qed

lemma produce_length:
  assumes "\<forall>batch r. generate col batch = Some r \<longrightarrow> length r = length batch"
  shows "produce col gen = Inr recon \<Longrightarrow> length recon = length (concat gen)"
proof (induction gen arbitrary: recon)
  case Nil
  then show ?case by simp
next
  case (Cons b gen)
  then show ?case using assms
    by (auto split: option.splits sum.splits)
qed

lemma datagen_length:
  "datagen whisper_chunks latents n = Inr gen \<Longrightarrow> 0 < n \<Longrightarrow>
   length (concat gen) = length whisper_chunks"
  by (auto simp: datagen_def concat_batches split: if_splits)

lemma not_queue_full: "\<not> queue_full q"
  by (simp add: queue_full_def maxsize_def)

lemma render_step_put_total:
  "(render_step col cy vl skip)\<^sup>*\<^sup>* (render_start (xs @ ys) tmp0)
     ((render_start (xs @ ys) tmp0)\<lparr>to_put := ys, res_frame_queue := xs\<rparr>)"
proof (induction xs arbitrary: ys rule: rev_induct)
  case Nil
  show ?case by (simp add: render_start_def)
next
  case (snoc x xs)
  let ?s = "(render_start (xs @ x # ys) tmp0)\<lparr>to_put := x # ys, res_frame_queue := xs\<rparr>"
  have "(render_step col cy vl skip)\<^sup>*\<^sup>* (render_start (xs @ x # ys) tmp0) ?s"
    using snoc [of "x # ys"] by simp
  moreover have "render_step col cy vl skip ?s
      (?s\<lparr>to_put := ys, res_frame_queue := res_frame_queue ?s @ [x]\<rparr>)"
    by (rule render_step.put) (simp_all add: not_queue_full)
  ultimately show ?case by (simp add: rtranclp.rtrancl_into_rtrancl)
qed

lemma render_queue_bound:
  "(render_step col cy vl skip)\<^sup>*\<^sup>* (render_start recon tmp0) s \<Longrightarrow>
   length (res_frame_queue s) + length (to_put s) \<le> length recon"
proof (induction rule: rtranclp_induct)
  case base
  show ?case by (simp add: render_start_def)
next
  case (step s s')
  from step.hyps(2) step.IH show ?case
    by (cases rule: render_step.cases) auto
qed

text \<open>
  The interleaved steps of the two threads and \<open>process_frames\<close> on the list of all the
  frames agree: while the consumer runs, what it will do with the frames queued and
  still to come is what it does with all of them from the start; when it has ended,
  its state is the one \<open>process_frames\<close> computes. So \<open>join\<close> returns only if
  \<open>process_frames\<close> is not \<open>Blocked\<close>.
\<close>

lemma render_agrees:
  assumes "(render_step col cy vl skip)\<^sup>*\<^sup>* (render_start recon tmp0) s"
  shows "(case status s of
            Running \<Rightarrow>
              process_frames col cy vl skip (res_frame_queue s @ to_put s) (thread s)
                = process_frames col cy vl skip recon \<lparr>idx = 0, tmp_files = tmp0, skipped = 0\<rparr>
          | Ended \<Rightarrow>
              process_frames col cy vl skip recon \<lparr>idx = 0, tmp_files = tmp0, skipped = 0\<rparr>
                = Finished (thread s)
          | Crashed e \<Rightarrow>
              process_frames col cy vl skip recon \<lparr>idx = 0, tmp_files = tmp0, skipped = 0\<rparr>
                = Died e (thread s))"
  using assms
proof (induction rule: rtranclp_induct)
  case base
  show ?case by (simp add: render_start_def)
next
  case (step s s')
  from step.hyps(2) show ?case
  proof (cases rule: render_step.cases)
    case (put r rest)
    with step.IH show ?thesis by (simp split: thread_status.splits)
  next
    case leave
    have "process_frames col cy vl skip (res_frame_queue s @ to_put s) (thread s) = Finished (thread s)"
      using leave by (cases "res_frame_queue s @ to_put s") simp_all
    with step.IH leave show ?thesis by simp
  next
    case empty
    with step.IH show ?thesis by simp
  next
    case (get r q c')
    with step.IH show ?thesis by simp
  next
    case (crash r q e)
    with step.IH show ?thesis by simp
  qed
qed

lemma assemble_cases:
  "(snd (ffmpeg_img2video col (tmp_dir d) fps) \<noteq> None \<or> temp_mp4 d \<noteq> None) \<Longrightarrow>
     tmp_dir d \<noteq> None \<Longrightarrow>
     returned (assemble col audio_path output_vid fps d w) = Some output_vid
     \<and> (\<exists>d'. left_behind (assemble col audio_path output_vid fps d w) = Some d'
              \<and> temp_mp4 d' = None \<and> tmp_dir d' = None)"
  "snd (ffmpeg_img2video col (tmp_dir d) fps) = None \<Longrightarrow> temp_mp4 d = None \<Longrightarrow>
     raised (assemble col audio_path output_vid fps d w) = Some FileNotFoundError
     \<and> (\<exists>d'. left_behind (assemble col audio_path output_vid fps d w) = Some d'
              \<and> temp_mp4 d' = None \<and> tmp_dir d' = tmp_dir d)"
  by (auto simp: assemble_def Let_def split: prod.splits option.splits)

lemma inference_joined:
  assumes "audio_chunks col audio_path fps = Some whisper_chunks"
    and "batch_size self \<noteq> 0"
    and "datagen whisper_chunks (input_latent_list_cycle cy) (batch_size self) = Inr gen"
    and "produce col gen = Inr recon"
    and "process_frames col cy (length whisper_chunks) skip recon
           \<lparr>idx = 0, tmp_files = tmp_listing (makedirs_tmp w), skipped = 0\<rparr> = e"
    and "\<forall>c. e \<noteq> Blocked c"
  shows "inference col self cy audio_path output_vid fps skip w =
           assemble col audio_path output_vid fps
             ((makedirs_tmp w)\<lparr>tmp_dir := Some (tmp_files (end_state e))\<rparr>) w"
  using assms by (cases e) (simp_all add: inference_def Let_def)


subsection \<open>The frames a render writes\<close>

text \<open>
  Claim C1. The claim is that a render without skipped frames writes as many frames as
  there are audio feature chunks, numbered from 0. Evaluated on three chunks, with every
  resize and every blending succeeding: the producer puts three frames, and the
  consumer leaves its loop when the counter is 2, having written two frames,
  \<open>00000000.png\<close> and \<open>00000001.png\<close>; the third frame stays in the queue.
\<close>

theorem three_chunks_two_frames:
  "audio_chunks sample_collab ''abc'' 25 = Some [Chunk 0, Chunk 1, Chunk 2]
   \<and> datagen [Chunk 0, Chunk 1, Chunk 2] (input_latent_list_cycle sample_cycles) 2
       = Inr [[(Chunk 0, Latent 1), (Chunk 1, Latent 2)], [(Chunk 2, Latent 2)]]
   \<and> produce sample_collab [[(Chunk 0, Latent 1), (Chunk 1, Latent 2)], [(Chunk 2, Latent 2)]]
       = Inr [Image 0, Image 1, Image 2]
   \<and> process_frames sample_collab sample_cycles 3 False [Image 0, Image 1, Image 2]
        \<lparr>idx = 0, tmp_files = [], skipped = 0\<rparr>
       = Finished \<lparr>idx = 2,
                   tmp_files = [(''00000000.png'', Image 0), (''00000001.png'', Image 1)],
                   skipped = 0\<rparr>"
  by code_simp

subsection \<open>A resize that fails\<close>

text \<open>
  When the resize raises, \<open>except: continue\<close> goes back to the head of the loop: the frame
  is dropped and the counter, which selects the box of the next frame as well as the
  name of the next file, stays where it is.
\<close>

lemma frame_body_resize_fails:
  assumes "coord_list_cycle cy \<noteq> []"
    and "frame_list_cycle cy \<noteq> []"
    and "coord_list_cycle cy ! (idx c mod length (coord_list_cycle cy)) = (x1, y1, x2, y2)"
    and "cv2_resize col r (x2 - x1, y2 - y1) = None"
  shows "frame_body col cy skip r c = Inr (c\<lparr>skipped := skipped c + 1\<rparr>)"
  using assms by (simp add: frame_body_def Let_def)

text \<open>
  So a resize that fails because of the box fails again on every later frame: all the
  frames that are still put are dropped, and the consumer, whose counter is below its
  exit value, waits on the empty queue for ever.
\<close>

lemma process_frames_stuck:
  assumes "coord_list_cycle cy \<noteq> []"
    and "frame_list_cycle cy \<noteq> []"
    and "coord_list_cycle cy ! (idx c mod length (coord_list_cycle cy)) = (x1, y1, x2, y2)"
    and "\<forall>r \<in> set q. cv2_resize col r (x2 - x1, y2 - y1) = None"
    and "int (idx c) < int video_len - 1"
  shows "process_frames col cy video_len skip q c
           = Blocked (c\<lparr>skipped := skipped c + length q\<rparr>)"
  using assms
proof (induction q arbitrary: c)
  case Nil
  then show ?case by simp
next
  case (Cons r q)
  let ?c = "c\<lparr>skipped := skipped c + 1\<rparr>"
  from Cons.prems(4) have fails: "cv2_resize col r (x2 - x1, y2 - y1) = None"
    and rest: "\<forall>r \<in> set q. cv2_resize col r (x2 - x1, y2 - y1) = None"
    by simp_all
  have body: "frame_body col cy skip r c = Inr ?c"
    by (rule frame_body_resize_fails [OF Cons.prems(1) Cons.prems(2) Cons.prems(3) fails])
  have "process_frames col cy video_len skip q ?c
          = Blocked (?c\<lparr>skipped := skipped ?c + length q\<rparr>)"
    using Cons.prems(1) Cons.prems(2) Cons.prems(3) rest Cons.prems(5)
    by (intro Cons.IH) simp_all
  with body Cons.prems(5) show ?case by simp
qed

text \<open>
  A resize that fails for one frame only is survived, because the loop ends one frame
  before the target length: the frames that are left are enough to bring the counter
  there.
\<close>

lemma single_skip_render_completes:
  assumes chunks: "audio_chunks col audio_path fps = Some whisper_chunks"
    and bs: "batch_size self \<noteq> 0"
    and gen: "datagen whisper_chunks (input_latent_list_cycle cy) (batch_size self) = Inr gen"
    and prod: "produce col gen = Inr recon"
    and per_item: "\<forall>batch r. generate col batch = Some r \<longrightarrow> length r = length batch"
    and fresh: "tmp_listing (makedirs_tmp w) = []"
    and run: "process_frames col cy (length whisper_chunks) False recon
                \<lparr>idx = 0, tmp_files = [], skipped = 0\<rparr> = e"
    and one: "skipped (end_state e) = 1"
    and others: "\<forall>err c. e \<noteq> Died err c"
    and enc: "snd (ffmpeg_img2video col (Some (tmp_files (end_state e))) fps) \<noteq> None"
  shows "(\<exists>c. e = Finished c \<and> int (idx c) = int (length whisper_chunks) - 1
             \<and> map fst (tmp_files c) = map png_name [0..<length whisper_chunks - 1])
       \<and> inference col self cy audio_path output_vid fps False w =
           assemble col audio_path output_vid fps
             ((makedirs_tmp w)\<lparr>tmp_dir := Some (tmp_files (end_state e))\<rparr>) w
       \<and> returned (inference col self cy audio_path output_vid fps False w) = Some output_vid
       \<and> raised (inference col self cy audio_path output_vid fps False w) = None"
proof -
  let ?c0 = "\<lparr>idx = 0, tmp_files = [], skipped = 0\<rparr>"
  let ?n = "length whisper_chunks"
  have len: "length recon = ?n"
    using produce_length [OF per_item prod] datagen_length [OF gen] bs by simp
  have not_blocked: "e \<noteq> Blocked c" for c
  proof
    assume b: "e = Blocked c"
    from process_frames_blocked [OF run [unfolded b]] one b len
    show False by simp
  qed
  with others obtain c where fin: "e = Finished c"
    by (cases e) auto
  have started: "int (idx ?c0) \<le> int ?n - 1"
  proof (rule ccontr)
    assume "\<not> int (idx ?c0) \<le> int ?n - 1"
    then have "process_frames col cy ?n False recon ?c0 = Finished ?c0"
      by (cases recon) simp_all
    with run one show False by auto
  qed
  from process_frames_finished [OF run [unfolded fin]] started
  have idx: "int (idx c) = int ?n - 1" by simp
  have "map fst (tmp_files (end_state (process_frames col cy ?n False recon ?c0)))
          = map png_name [0..<idx (end_state (process_frames col cy ?n False recon ?c0))]"
    by (rule process_frames_names) simp
  then have names: "map fst (tmp_files c) = map png_name [0..<idx c]"
    by (simp add: run fin)
  have "idx c = ?n - 1" using idx by linarith
  with names have names': "map fst (tmp_files c) = map png_name [0..<?n - 1]" by simp
  have joined: "inference col self cy audio_path output_vid fps False w =
           assemble col audio_path output_vid fps
             ((makedirs_tmp w)\<lparr>tmp_dir := Some (tmp_files (end_state e))\<rparr>) w"
    by (rule inference_joined [OF chunks bs gen prod]) (simp_all add: fresh run not_blocked)
  have "returned (assemble col audio_path output_vid fps
             ((makedirs_tmp w)\<lparr>tmp_dir := Some (tmp_files (end_state e))\<rparr>) w) = Some output_vid"
    using assemble_cases(1) [of col "(makedirs_tmp w)\<lparr>tmp_dir := Some (tmp_files (end_state e))\<rparr>"
                                fps audio_path output_vid w] enc
    by simp
  then have ret: "returned (inference col self cy audio_path output_vid fps False w) = Some output_vid"
    by (simp add: joined)
  then have "raised (inference col self cy audio_path output_vid fps False w) = None"
    by (cases "inference col self cy audio_path output_vid fps False w") simp_all
  then have no_raise: "raised (inference col self cy audio_path output_vid fps False w) = None" .
  from fin idx names' have ended: "\<exists>c. e = Finished c \<and> int (idx c) = int ?n - 1
      \<and> map fst (tmp_files c) = map png_name [0..<?n - 1]"
    by blast
  show ?thesis
    by (intro conjI ended joined ret no_raise)
qed

lemma single_skip_example:
  "skipped (end_state (process_frames
       (sample_collab\<lparr>cv2_resize := (\<lambda>img size. if img = Image 0 then None else Some img)\<rparr>)
       sample_cycles 3 False [Image 0, Image 1, Image 2] \<lparr>idx = 0, tmp_files = [], skipped = 0\<rparr>)) = 1
   \<and> (\<exists>c. process_frames
       (sample_collab\<lparr>cv2_resize := (\<lambda>img size. if img = Image 0 then None else Some img)\<rparr>)
       sample_cycles 3 False [Image 0, Image 1, Image 2] \<lparr>idx = 0, tmp_files = [], skipped = 0\<rparr>
         = Finished c
       \<and> idx c = 2 \<and> map fst (tmp_files c) = [''00000000.png'', ''00000001.png''])
   \<and> returned (inference
       (sample_collab\<lparr>cv2_resize := (\<lambda>img size. if img = Image 0 then None else Some img)\<rparr>)
       sample_avatar sample_cycles ''abc'' ''out.mp4'' 25 False sample_world) = Some ''out.mp4''
   \<and> raised (inference
       (sample_collab\<lparr>cv2_resize := (\<lambda>img size. if img = Image 0 then None else Some img)\<rparr>)
       sample_avatar sample_cycles ''abc'' ''out.mp4'' 25 False sample_world) = None"
proof -
  let ?col = "sample_collab\<lparr>cv2_resize := (\<lambda>img size. if img = Image 0 then None else Some img)\<rparr>"
  let ?gen = "[[(Chunk 0, Latent 1), (Chunk 1, Latent 2)], [(Chunk 2, Latent 2)]]"
  let ?recon = "[Image 0, Image 1, Image 2]"
  let ?e = "Finished \<lparr>idx = 2,
                       tmp_files = [(''00000000.png'', Image 1), (''00000001.png'', Image 2)],
                       skipped = 1\<rparr>"
  have a: "audio_chunks ?col ''abc'' 25 = Some [Chunk 0, Chunk 1, Chunk 2]"
    by code_simp
  have b: "batch_size sample_avatar \<noteq> 0"
    by (simp add: sample_avatar_def)
  have c: "datagen [Chunk 0, Chunk 1, Chunk 2] (input_latent_list_cycle sample_cycles)
             (batch_size sample_avatar) = Inr ?gen"
    by code_simp
  have d: "produce ?col ?gen = Inr ?recon"
    by code_simp
  have per_item: "\<forall>batch r. generate ?col batch = Some r \<longrightarrow> length r = length batch"
    by (auto simp: sample_collab_def)
  have fresh: "tmp_listing (makedirs_tmp sample_world) = []"
    by code_simp
  have e: "process_frames ?col sample_cycles (length [Chunk 0, Chunk 1, Chunk 2]) False
             ?recon \<lparr>idx = 0, tmp_files = [], skipped = 0\<rparr> = ?e"
    by code_simp
  have one: "skipped (end_state ?e) = 1" by simp
  have others: "\<forall>err c. ?e \<noteq> Died err c" by simp
  have enc: "snd (ffmpeg_img2video ?col (Some (tmp_files (end_state ?e))) 25) \<noteq> None"
    by code_simp
  have fin: "process_frames ?col sample_cycles 3 False ?recon
               \<lparr>idx = 0, tmp_files = [], skipped = 0\<rparr> = ?e"
    by code_simp
  note completes = single_skip_render_completes
         [OF a b c d per_item fresh e one others enc, of "''out.mp4''"]
  from completes have
    "returned (inference ?col sample_avatar sample_cycles ''abc'' ''out.mp4'' 25 False sample_world)
       = Some ''out.mp4''"
    "raised (inference ?col sample_avatar sample_cycles ''abc'' ''out.mp4'' 25 False sample_world)
       = None"
    by blast+
  then show ?thesis
    unfolding fin by simp
qed


subsection \<open>The cleanup after the encoders\<close>

text \<open>
  The claim C4 says that the temporary files are kept when an encoder command fails.
  Here the second command fails (exit status 1, nothing written), and \<open>inference\<close> still
  returns, with the intermediate video and the frame directory deleted.
\<close>

theorem cleanup_after_failed_encoder:
  "fst (ffmpeg_combine (sample_collab\<lparr>ffmpeg_combine := (\<lambda>audio v. (1, None))\<rparr>) ''abc''
          (Some (Video 2))) \<noteq> 0
   \<and> returned (inference (sample_collab\<lparr>ffmpeg_combine := (\<lambda>audio v. (1, None))\<rparr>)
        sample_avatar sample_cycles ''abc'' ''out.mp4'' 25 False sample_world) = Some ''out.mp4''
   \<and> left_behind (inference (sample_collab\<lparr>ffmpeg_combine := (\<lambda>audio v. (1, None))\<rparr>)
        sample_avatar sample_cycles ''abc'' ''out.mp4'' 25 False sample_world) = Some empty_dir"
  by code_simp

text \<open>
  Claim C4, amended. Once the consumer thread has ended, \<open>inference\<close> runs both encoder
  commands and never reads their exit status. If the intermediate video exists after
  them (written by the first command, or left by an earlier render), it is deleted
  together with the frame directory and \<open>inference\<close> returns the output path, whether
  the commands succeeded or not. If it does not exist, \<open>os.remove\<close> raises
  \<open>FileNotFoundError\<close> and the frame directory, with the frames of this render, is left
  in place.
\<close>

theorem cleanup_whatever_the_exit_status:
  assumes "audio_chunks col audio_path fps = Some whisper_chunks"
    and "batch_size self \<noteq> 0"
    and "datagen whisper_chunks (input_latent_list_cycle cy) (batch_size self) = Inr gen"
    and "produce col gen = Inr recon"
    and "process_frames col cy (length whisper_chunks) skip_save_images recon
           \<lparr>idx = 0, tmp_files = tmp_listing (makedirs_tmp w), skipped = 0\<rparr> = e"
    and "\<forall>c. e \<noteq> Blocked c"
  shows "(snd (ffmpeg_img2video col (Some (tmp_files (end_state e))) fps) \<noteq> None
            \<or> temp_mp4 (makedirs_tmp w) \<noteq> None \<longrightarrow>
          returned (inference col self cy audio_path output_vid fps skip_save_images w)
            = Some output_vid
          \<and> (\<exists>d'. left_behind (inference col self cy audio_path output_vid fps skip_save_images w)
                     = Some d'
                 \<and> temp_mp4 d' = None \<and> tmp_dir d' = None))
       \<and> (snd (ffmpeg_img2video col (Some (tmp_files (end_state e))) fps) = None
            \<and> temp_mp4 (makedirs_tmp w) = None \<longrightarrow>
          raised (inference col self cy audio_path output_vid fps skip_save_images w)
            = Some FileNotFoundError
          \<and> (\<exists>d'. left_behind (inference col self cy audio_path output_vid fps skip_save_images w)
                     = Some d'
                 \<and> temp_mp4 d' = None \<and> tmp_dir d' = Some (tmp_files (end_state e))))"
proof -
  let ?d = "(makedirs_tmp w)\<lparr>tmp_dir := Some (tmp_files (end_state e))\<rparr>"
  have eq: "inference col self cy audio_path output_vid fps skip_save_images w =
              assemble col audio_path output_vid fps ?d w"
    using assms by (rule inference_joined)
  show ?thesis
    unfolding eq
    using assemble_cases(1) [of col ?d fps audio_path output_vid w]
          assemble_cases(2) [of col ?d fps audio_path output_vid w]
    by simp
qed

theorem cleanup_whatever_the_exit_status_witness:
  "returned (inference sample_collab sample_avatar sample_cycles ''abc'' ''out.mp4'' 25 False
               sample_world) = Some ''out.mp4''
   \<and> (\<exists>d'. left_behind (inference sample_collab sample_avatar sample_cycles ''abc'' ''out.mp4''
                            25 False sample_world) = Some d'
          \<and> temp_mp4 d' = None \<and> tmp_dir d' = None)
   \<and> raised (inference (sample_collab\<lparr>ffmpeg_img2video := (\<lambda>frames fps. (1, None))\<rparr>)
               sample_avatar sample_cycles ''abc'' ''out.mp4'' 25 False sample_world)
       = Some FileNotFoundError
   \<and> (\<exists>d'. left_behind (inference (sample_collab\<lparr>ffmpeg_img2video := (\<lambda>frames fps. (1, None))\<rparr>)
                            sample_avatar sample_cycles ''abc'' ''out.mp4'' 25 False sample_world)
              = Some d'
          \<and> temp_mp4 d' = None
          \<and> tmp_dir d' = Some [(''00000000.png'', Image 0), (''00000001.png'', Image 1)])"
proof -
  let ?bad = "sample_collab\<lparr>ffmpeg_img2video := (\<lambda>frames fps. (1, None))\<rparr>"
  let ?gen = "[[(Chunk 0, Latent 1), (Chunk 1, Latent 2)], [(Chunk 2, Latent 2)]]"
  let ?recon = "[Image 0, Image 1, Image 2]"
  let ?e = "Finished \<lparr>idx = 2,
                       tmp_files = [(''00000000.png'', Image 0), (''00000001.png'', Image 1)],
                       skipped = 0\<rparr>"
  have a: "audio_chunks sample_collab ''abc'' 25 = Some [Chunk 0, Chunk 1, Chunk 2]"
          "audio_chunks ?bad ''abc'' 25 = Some [Chunk 0, Chunk 1, Chunk 2]"
    by code_simp+
  have b: "batch_size sample_avatar \<noteq> 0"
    by (simp add: sample_avatar_def)
  have c: "datagen [Chunk 0, Chunk 1, Chunk 2] (input_latent_list_cycle sample_cycles)
             (batch_size sample_avatar) = Inr ?gen"
    by code_simp
  have d: "produce sample_collab ?gen = Inr ?recon" "produce ?bad ?gen = Inr ?recon"
    by code_simp+
  have e: "process_frames sample_collab sample_cycles (length [Chunk 0, Chunk 1, Chunk 2]) False
             ?recon \<lparr>idx = 0, tmp_files = tmp_listing (makedirs_tmp sample_world), skipped = 0\<rparr> = ?e"
          "process_frames ?bad sample_cycles (length [Chunk 0, Chunk 1, Chunk 2]) False
             ?recon \<lparr>idx = 0, tmp_files = tmp_listing (makedirs_tmp sample_world), skipped = 0\<rparr> = ?e"
    by code_simp+
  have f: "\<forall>c. ?e \<noteq> Blocked c"
    by simp
  have g: "snd (ffmpeg_img2video sample_collab (Some (tmp_files (end_state ?e))) 25) \<noteq> None"
          "snd (ffmpeg_img2video ?bad (Some (tmp_files (end_state ?e))) 25) = None"
          "temp_mp4 (makedirs_tmp sample_world) = None"
    by code_simp+
  note good = cleanup_whatever_the_exit_status [OF a(1) b c d(1) e(1) f, of "''out.mp4''"]
  note bad = cleanup_whatever_the_exit_status [OF a(2) b c d(2) e(2) f, of "''out.mp4''"]
  from good g(1) bad g(2,3) show ?thesis
    by simp
qed

subsection \<open>The queue between the two threads\<close>

text \<open>
  The claim C5 says that some fixed capacity bounds the queue in every reachable state
  of every render. No capacity does: the driving thread can put all the frames of a
  render before the consumer takes one, and a render can have more frames than any
  given capacity.
\<close>

theorem queue_capacity_counterexample:
  "\<not> (\<exists>capacity. \<forall>video_len recon s.
          (render_step sample_collab sample_cycles video_len False)\<^sup>*\<^sup>* (render_start recon []) s
          \<longrightarrow> length (res_frame_queue s) \<le> capacity)"
proof
  assume "\<exists>capacity. \<forall>video_len recon s.
          (render_step sample_collab sample_cycles video_len False)\<^sup>*\<^sup>* (render_start recon []) s
          \<longrightarrow> length (res_frame_queue s) \<le> capacity"
  then obtain capacity where bound:
    "\<And>video_len recon s.
       (render_step sample_collab sample_cycles video_len False)\<^sup>*\<^sup>* (render_start recon []) s
       \<Longrightarrow> length (res_frame_queue s) \<le> capacity"
    by blast
  let ?recon = "replicate (Suc capacity) (Image 0)"
  have reach: "(render_step sample_collab sample_cycles 0 False)\<^sup>*\<^sup>* (render_start ?recon [])
          ((render_start ?recon [])\<lparr>to_put := [], res_frame_queue := ?recon\<rparr>)"
    using render_step_put_total [of sample_collab sample_cycles 0 False ?recon "[]" "[]"]
    by (simp only: append_Nil2)
  have "length (res_frame_queue
                 ((render_start ?recon [])\<lparr>to_put := [], res_frame_queue := ?recon\<rparr>)) \<le> capacity"
    by (rule bound [OF reach])
  then show False by simp
qed

text \<open>
  Claim C5, amended. The queue is made without a size, so it is never full and a put
  never blocks: in every reachable state of the two threads the driving thread can put
  its next frame. The queue holds at most the frames put so far: its length and the
  number of frames still to put add up to at most the number of frames of the render.
\<close>

theorem queue_holds_what_was_put:
  assumes "(render_step col cy video_len skip_save_images)\<^sup>*\<^sup>* (render_start recon tmp0) s"
  shows "length (res_frame_queue s) + length (to_put s) \<le> length recon
       \<and> \<not> queue_full (res_frame_queue s)
       \<and> (\<forall>r rest. to_put s = r # rest \<longrightarrow>
            render_step col cy video_len skip_save_images s
              (s\<lparr>to_put := rest, res_frame_queue := res_frame_queue s @ [r]\<rparr>))"
  using render_queue_bound [OF assms]
  by (auto simp: not_queue_full intro: render_step.put)

theorem queue_holds_what_was_put_witness:
  "(render_step sample_collab sample_cycles 2 False)\<^sup>*\<^sup>* (render_start [Image 0, Image 1] [])
      ((render_start [Image 0, Image 1] [])\<lparr>to_put := [Image 1], res_frame_queue := [Image 0]\<rparr>)
   \<and> length [Image 0] + length [Image 1] \<le> length [Image 0, Image 1]
   \<and> \<not> queue_full [Image 0]
   \<and> render_step sample_collab sample_cycles 2 False
        ((render_start [Image 0, Image 1] [])\<lparr>to_put := [Image 1], res_frame_queue := [Image 0]\<rparr>)
        ((render_start [Image 0, Image 1] [])\<lparr>to_put := [], res_frame_queue := [Image 0, Image 1]\<rparr>)"
proof -
  let ?s = "(render_start [Image 0, Image 1] [])\<lparr>to_put := [Image 1], res_frame_queue := [Image 0]\<rparr>"
  have reach: "(render_step sample_collab sample_cycles 2 False)\<^sup>*\<^sup>*
                 (render_start [Image 0, Image 1] []) ?s"
    using render_step_put_total [of sample_collab sample_cycles 2 False "[Image 0]" "[Image 1]" "[]"]
    by simp
  from queue_holds_what_was_put [OF reach] have
    "\<not> queue_full [Image 0]"
    "render_step sample_collab sample_cycles 2 False ?s
       (?s\<lparr>to_put := [], res_frame_queue := res_frame_queue ?s @ [Image 1]\<rparr>)"
    by simp_all
  with reach show ?thesis by simp
qed

section \<open>Properties of the login endpoint\<close>








end
